theory Spec2Isabelle
  imports Complex_Main "HOL-Library.Signed_Division"
begin

section \<open>The resize worker of \<^verbatim>\<open>src/sharp.cc\<close>\<close>

text \<open>
  The addon has three functions: \<^verbatim>\<open>Resize\<close> fills a \<^verbatim>\<open>ResizeBaton\<close> from the
  JavaScript arguments and queues it, \<^verbatim>\<open>ResizeAsync\<close> runs the image pipeline on a worker
  thread, and \<^verbatim>\<open>ResizeAsyncAfter\<close> calls the JavaScript callback. The pipeline is a
  sequence of calls into libvips, each followed by the same error idiom. libvips is not part
  of the repository, so it enters the model as a record of functions over an abstract image
  type \<open>'img\<close> and an abstract library state \<open>'w\<close> (the error buffer, the file system, the
  heap). Every theorem about the pipeline is proved for all such records.

  C \<^verbatim>\<open>int\<close> values are modelled as \<open>int\<close>; \<^verbatim>\<open>/\<close> on them is the truncating \<open>sdiv\<close>.
  Signed overflow, which C++ leaves undefined, is not modelled: it can occur only in the
  offsets of the crop and embed rectangles, and only for a target below 1 that is further
  from the image size than an \<^verbatim>\<open>int\<close> can hold (a target near \<^verbatim>\<open>INT_MIN\<close>, for an image
  of any real size).
  \<^verbatim>\<open>double\<close> values are modelled as the reals they denote, and every floating-point
  division is rounded to the nearest binary64 value (\<open>rd\<close> below).

  Left out of the model: the release of the images (\<^verbatim>\<open>ImageFreer\<close>, \<^verbatim>\<open>delete\<close>), failing
  allocations, V8's conversion of the arguments, and the threads themselves: a request is
  the worker followed by the completion, as \<^verbatim>\<open>uv_queue_work\<close> runs them.
\<close>

subsection \<open>Suffix test (\<^verbatim>\<open>EndsWith\<close>, lines 44-46)\<close>

definition EndsWith :: "string \<Rightarrow> string \<Rightarrow> bool" where
  "EndsWith str ending \<longleftrightarrow>
     length ending \<le> length str \<and>
     take (length ending) (drop (length str - length ending) str) = ending"

subsection \<open>binary64 arithmetic\<close>

text \<open>
  Round-half-to-even of a real to an integer, and the binary exponent of a non-zero real,
  found by repeated halving or doubling. The two searches are bounded by the exponent range
  of binary64: 1023 steps upwards and 1022 downwards.
\<close>

definition rne :: "real \<Rightarrow> int" where
  "rne x = (let f = \<lfloor>x\<rfloor>; d = x - of_int f in
     if d < 1 / 2 then f else if 1 / 2 < d then f + 1 else if even f then f else f + 1)"

fun expo_up :: "nat \<Rightarrow> real \<Rightarrow> int" where
  "expo_up 0 x = 0"
| "expo_up (Suc n) x = (if x < 2 then 0 else 1 + expo_up n (x / 2))"

fun expo_down :: "nat \<Rightarrow> real \<Rightarrow> int" where
  "expo_down 0 x = 0"
| "expo_down (Suc n) x = (if 1 \<le> x then 0 else expo_down n (2 * x) - 1)"

definition expo :: "real \<Rightarrow> int" where
  "expo x = (if 1 \<le> \<bar>x\<bar> then expo_up 1023 \<bar>x\<bar> else expo_down 1022 \<bar>x\<bar>)"

text \<open>
  \<open>rd x\<close> is \<open>x\<close> rounded to the nearest binary64 number, ties to even: to 53 significant
  bits in the normal range, and to a multiple of \<open>2 powi (-1074)\<close> below it, where the
  downward search stops at the exponent -1022. It is the result of a binary64 operation whose
  exact result is \<open>x\<close>, as long as the operation does not overflow; binary64 then gives an
  infinity, which \<open>rd\<close> does not model. The quotients the worker forms from 32-bit sizes
  and targets are 0 or between \<open>2 powi (-31)\<close> and \<open>2 powi 31\<close> in magnitude, far inside
  the normal range.
\<close>

definition rd :: "real \<Rightarrow> real" where
  "rd x = (if x = 0 then 0
           else sgn x * (of_int (rne (\<bar>x\<bar> / 2 powi (expo x - 52))) * 2 powi (expo x - 52)))"

text \<open>Division and multiplication of two binary64 numbers.\<close>

definition fdiv :: "real \<Rightarrow> real \<Rightarrow> real" where
  "fdiv a b = rd (a / b)"

definition fmul :: "real \<Rightarrow> real \<Rightarrow> real" where
  "fmul a b = rd (a * b)"

text \<open>The values of a C \<^verbatim>\<open>int\<close>.\<close>

definition int32 :: "int \<Rightarrow> bool" where
  "int32 i \<longleftrightarrow> - 2147483648 \<le> i \<and> i \<le> 2147483647"

subsection \<open>The scale factors (lines 77-82)\<close>

record geometry =
  xfactor :: real
  yfactor :: real
  factor :: real
  shrink :: int
  residual :: real

text \<open>
  \<^verbatim>\<open>double xfactor = static_cast<double>(img->Xsize) / std::max(baton->cols, 1);\<close>
  \<^verbatim>\<open>double yfactor = static_cast<double>(img->Ysize) / std::max(baton->rows, 1);\<close>
  \<^verbatim>\<open>double factor = baton->crop ? std::min(xfactor, yfactor) : std::max(xfactor, yfactor);\<close>
  \<^verbatim>\<open>factor = std::max(factor, 1.0);\<close>
  \<^verbatim>\<open>int shrink = floor(factor);\<close>
  \<^verbatim>\<open>double residual = shrink / factor;\<close>
\<close>

definition plan :: "int \<Rightarrow> int \<Rightarrow> int \<Rightarrow> int \<Rightarrow> bool \<Rightarrow> geometry" where
  "plan xsize ysize cols' rows' crop' =
     (let xf = fdiv (of_int xsize) (of_int (max cols' 1));
          yf = fdiv (of_int ysize) (of_int (max rows' 1));
          f0 = (if crop' then min xf yf else max xf yf);
          f = max f0 1;
          s = \<lfloor>f\<rfloor>;
          r = fdiv (of_int s) f
      in \<lparr>xfactor = xf, yfactor = yf, factor = f, shrink = s, residual = r\<rparr>)"

subsection \<open>The placement rectangles (lines 100-103 and 111-112)\<close>

text \<open>
  Crop: \<^verbatim>\<open>width = std::min(img->Xsize, baton->cols)\<close>, \<^verbatim>\<open>left = (img->Xsize - width + 1) / 2\<close>,
  and the same for the height. The result is (left, top, width, height).

  Width and height are those of the code for all values. The offsets are computed on the
  integers: they are those of the code as long as the difference and the sum stay within
  the range of \<^verbatim>\<open>int\<close>, as they do for sizes and targets of at least 1. For a target
  below 1 the width is the target, and the subtraction overflows in C++ when the target is
  near \<^verbatim>\<open>INT_MIN\<close>; the standard leaves the result undefined, the model gives the
  mathematical value there and says nothing about the code.
\<close>

definition crop_area :: "int \<Rightarrow> int \<Rightarrow> int \<Rightarrow> int \<Rightarrow> int \<times> int \<times> int \<times> int" where
  "crop_area xsize ysize cols' rows' =
     (let width = min xsize cols';
          height = min ysize rows';
          left = (xsize - width + 1) sdiv 2;
          top' = (ysize - height + 1) sdiv 2
      in (left, top', width, height))"

text \<open>
  Embed: \<^verbatim>\<open>left = (baton->cols - img->Xsize) / 2\<close>, \<^verbatim>\<open>top = (baton->rows - img->Ysize) / 2\<close>;
  the canvas is \<^verbatim>\<open>baton->cols\<close> by \<^verbatim>\<open>baton->rows\<close>.

  The canvas width and height are those of the code for all values. The offsets are again
  computed on the integers, and are those of the code as long as the difference stays
  within the range of \<^verbatim>\<open>int\<close>; for an image of positive size it overflows in C++ only
  when the target is near \<^verbatim>\<open>INT_MIN\<close>.
\<close>

definition embed_area :: "int \<Rightarrow> int \<Rightarrow> int \<Rightarrow> int \<Rightarrow> int \<times> int \<times> int \<times> int" where
  "embed_area xsize ysize cols' rows' =
     (let left = (cols' - xsize) sdiv 2;
          top' = (rows' - ysize) sdiv 2
      in (left, top', cols', rows'))"

subsection \<open>The baton (lines 29-42)\<close>

text \<open>
  \<^verbatim>\<open>buffer_out\<close> is the memory the pointer refers to, as a list of bytes. The persistent
  handle of the callback is left out: the calls made to it are the result of
  \<open>ResizeAsyncAfter\<close>.
\<close>

type_synonym bytes = "nat list"

record ResizeBaton =
  src :: string
  dst :: string
  buffer_out :: bytes
  buffer_out_len :: nat
  cols :: int
  rows :: int
  crop :: bool
  embed :: int
  err :: string

text \<open>
  \<^verbatim>\<open>new ResizeBaton\<close>: the constructor sets \<^verbatim>\<open>buffer_out_len\<close> to 0 and the three strings
  are default-constructed empty. The other members are not initialised: they keep whatever
  the allocated memory \<open>raw\<close> holds.
\<close>

definition ResizeBaton_new :: "ResizeBaton \<Rightarrow> ResizeBaton" where
  "ResizeBaton_new raw = raw\<lparr>src := [], dst := [], err := [], buffer_out_len := 0\<rparr>"

subsection \<open>The libvips interface\<close>

record INTMASK =
  xsize :: int
  ysize :: int
  scale :: int
  offset :: int
  coeff :: "int list"
  filename :: string

text \<open>\<^verbatim>\<open>im_create_imaskv\<close> builds a mask with scale 1 and offset 0 from its arguments.\<close>

definition im_create_imaskv :: "string \<Rightarrow> int \<Rightarrow> int \<Rightarrow> int list \<Rightarrow> INTMASK" where
  "im_create_imaskv name xs ys cs =
     \<lparr>xsize = xs, ysize = ys, scale = 1, offset = 0, coeff = cs, filename = name\<rparr>"

datatype VipsInterpolate = bilinear_static

type_synonym save_options = "(string \<times> int) list"

text \<open>
  Each library function takes the library state and returns its result with the new state.
  An image-producing operation returns \<open>None\<close> where the C function returns non-zero, and
  the image it has written to its output otherwise. The two loaders receive the current
  value of the pointer \<^verbatim>\<open>in\<close> and return its new value (\<open>None\<close> is \<^verbatim>\<open>NULL\<close>); the worker
  ignores their return code. The savers return their return code; the buffer savers also
  return what they have stored in \<^verbatim>\<open>buffer_out\<close> and \<^verbatim>\<open>buffer_out_len\<close>.
\<close>

record ('img, 'w) vips =
  Xsize :: "'img \<Rightarrow> int"
  Ysize :: "'img \<Rightarrow> int"
  vips_image_new_mode :: "string \<Rightarrow> string \<Rightarrow> 'w \<Rightarrow> 'img option \<times> 'w"
  vips_jpegload :: "string \<Rightarrow> 'img option \<Rightarrow> 'w \<Rightarrow> 'img option \<times> 'w"
  vips_pngload :: "string \<Rightarrow> 'img option \<Rightarrow> 'w \<Rightarrow> 'img option \<times> 'w"
  im_open_local_array :: "'img \<Rightarrow> nat \<Rightarrow> string \<Rightarrow> string \<Rightarrow> 'w \<Rightarrow> int \<times> 'w"
  im_shrink :: "'img \<Rightarrow> int \<Rightarrow> int \<Rightarrow> 'w \<Rightarrow> 'img option \<times> 'w"
  im_affinei_all ::
    "'img \<Rightarrow> VipsInterpolate \<Rightarrow> real \<Rightarrow> real \<Rightarrow> real \<Rightarrow> real \<Rightarrow> real \<Rightarrow> real \<Rightarrow> 'w \<Rightarrow>
     'img option \<times> 'w"
  im_extract_area :: "'img \<Rightarrow> int \<Rightarrow> int \<Rightarrow> int \<Rightarrow> int \<Rightarrow> 'w \<Rightarrow> 'img option \<times> 'w"
  im_embed :: "'img \<Rightarrow> int \<Rightarrow> int \<Rightarrow> int \<Rightarrow> int \<Rightarrow> int \<Rightarrow> 'w \<Rightarrow> 'img option \<times> 'w"
  im_conv :: "'img \<Rightarrow> INTMASK \<Rightarrow> 'w \<Rightarrow> 'img option \<times> 'w"
  vips_jpegsave_buffer :: "'img \<Rightarrow> save_options \<Rightarrow> 'w \<Rightarrow> (int \<times> bytes \<times> nat) \<times> 'w"
  vips_pngsave_buffer :: "'img \<Rightarrow> save_options \<Rightarrow> 'w \<Rightarrow> (int \<times> bytes \<times> nat) \<times> 'w"
  vips_foreign_save :: "'img \<Rightarrow> string \<Rightarrow> save_options \<Rightarrow> 'w \<Rightarrow> int \<times> 'w"
  vips_error_buffer :: "'w \<Rightarrow> string"
  vips_error_clear :: "'w \<Rightarrow> 'w"

text \<open>The calls the worker makes into the library, in the order it makes them.\<close>

datatype 'img vips_call =
    Call_image_new_mode string string
  | Call_jpegload string
  | Call_pngload string
  | Call_open_local_array 'img
  | Call_shrink 'img int int
  | Call_affinei_all 'img VipsInterpolate real real real real real real
  | Call_extract_area 'img int int int int
  | Call_embed 'img int int int int int
  | Call_conv 'img INTMASK
  | Call_jpegsave_buffer 'img save_options
  | Call_pngsave_buffer 'img save_options
  | Call_foreign_save 'img string save_options

fun is_encode :: "'img vips_call \<Rightarrow> bool" where
  "is_encode (Call_jpegsave_buffer _ _) = True"
| "is_encode (Call_pngsave_buffer _ _) = True"
| "is_encode (Call_foreign_save _ _ _) = True"
| "is_encode _ = False"

text \<open>
  The error idiom that follows every library call:
  \<^verbatim>\<open>(baton->err).append(vips_error_buffer()); vips_error_clear(); return;\<close>
  The result is the baton and the library state with which the worker returns.
\<close>

definition vips_fail :: "('img, 'w) vips \<Rightarrow> ResizeBaton \<Rightarrow> 'w \<Rightarrow> ResizeBaton \<times> 'w" where
  "vips_fail be baton w =
     (baton\<lparr>err := err baton @ vips_error_buffer be w\<rparr>, vips_error_clear be w)"

text \<open>
  A stage of the worker makes its library calls and then either returns from
  \<^verbatim>\<open>ResizeAsync\<close> (\<open>Inl\<close>, with the baton and the library state at the return) or goes on
  with the image it has produced (\<open>Inr\<close>). \<open>andthen\<close> runs the next stage unless the
  worker has returned.
\<close>

type_synonym ('img, 'w) stage = "'img vips_call list \<times> (ResizeBaton \<times> 'w + 'img \<times> 'w)"

definition andthen ::
  "('img, 'w) stage \<Rightarrow> ('img \<Rightarrow> 'w \<Rightarrow> ('img, 'w) stage) \<Rightarrow> ('img, 'w) stage" where
  "andthen r f =
     (case r of
        (cs, Inl ret) \<Rightarrow> (cs, Inl ret)
      | (cs, Inr (img, w)) \<Rightarrow> (case f img w of (cs', r') \<Rightarrow> (cs @ cs', r')))"

subsection \<open>Decoding (lines 51-66)\<close>

definition decode :: "('img, 'w) vips \<Rightarrow> ResizeBaton \<Rightarrow> 'w \<Rightarrow> ('img, 'w) stage" where
  "decode be baton w =
     (case vips_image_new_mode be (src baton) ''p'' w of
        (in0, w0) \<Rightarrow>
          if EndsWith (src baton) ''.jpg'' \<or> EndsWith (src baton) ''.jpeg'' then
            (case vips_jpegload be (src baton) in0 w0 of
               (None, w1) \<Rightarrow>
                 ([Call_image_new_mode (src baton) ''p'', Call_jpegload (src baton)],
                  Inl (vips_fail be baton w1))
             | (Some img, w1) \<Rightarrow>
                 ([Call_image_new_mode (src baton) ''p'', Call_jpegload (src baton)],
                  Inr (img, w1)))
          else if EndsWith (src baton) ''.png'' then
            (case vips_pngload be (src baton) in0 w0 of
               (None, w1) \<Rightarrow>
                 ([Call_image_new_mode (src baton) ''p'', Call_pngload (src baton)],
                  Inl (vips_fail be baton w1))
             | (Some img, w1) \<Rightarrow>
                 ([Call_image_new_mode (src baton) ''p'', Call_pngload (src baton)],
                  Inr (img, w1)))
          else
            ([Call_image_new_mode (src baton) ''p''],
             Inl (baton\<lparr>err := err baton @ ''Unsupported input file type''\<rparr>, w0)))"

subsection \<open>The array of intermediate images (lines 68-75)\<close>

definition open_local ::
  "('img, 'w) vips \<Rightarrow> ResizeBaton \<Rightarrow> 'img \<Rightarrow> 'w \<Rightarrow> ('img, 'w) stage" where
  "open_local be baton img w =
     (case im_open_local_array be img 4 ''temp'' ''p'' w of
        (rc, w') \<Rightarrow>
          ([Call_open_local_array img],
           if rc \<noteq> 0 then Inl (vips_fail be baton w') else Inr (img, w')))"

subsection \<open>Shrink and affine (lines 77-97)\<close>

definition resample ::
  "('img, 'w) vips \<Rightarrow> ResizeBaton \<Rightarrow> 'img \<Rightarrow> 'w \<Rightarrow> ('img, 'w) stage" where
  "resample be baton img w =
     (let g = plan (Xsize be img) (Ysize be img) (cols baton) (rows baton) (crop baton) in
      case im_shrink be img (shrink g) (shrink g) w of
        (None, w') \<Rightarrow>
          ([Call_shrink img (shrink g) (shrink g)], Inl (vips_fail be baton w'))
      | (Some t0, w') \<Rightarrow>
          (case im_affinei_all be t0 bilinear_static (residual g) 0 0 (residual g) 0 0 w' of
             (None, w'') \<Rightarrow>
               ([Call_shrink img (shrink g) (shrink g),
                 Call_affinei_all t0 bilinear_static (residual g) 0 0 (residual g) 0 0],
                Inl (vips_fail be baton w''))
           | (Some t1, w'') \<Rightarrow>
               ([Call_shrink img (shrink g) (shrink g),
                 Call_affinei_all t0 bilinear_static (residual g) 0 0 (residual g) 0 0],
                Inr (t1, w''))))"

subsection \<open>Crop or embed (lines 99-119)\<close>

definition canvas ::
  "('img, 'w) vips \<Rightarrow> ResizeBaton \<Rightarrow> 'img \<Rightarrow> 'w \<Rightarrow> ('img, 'w) stage" where
  "canvas be baton img w =
     (if crop baton then
        (case crop_area (Xsize be img) (Ysize be img) (cols baton) (rows baton) of
           (left, top', width, height) \<Rightarrow>
             (case im_extract_area be img left top' width height w of
                (None, w') \<Rightarrow>
                  ([Call_extract_area img left top' width height],
                   Inl (vips_fail be baton w'))
              | (Some t2, w') \<Rightarrow>
                  ([Call_extract_area img left top' width height], Inr (t2, w'))))
      else
        (case embed_area (Xsize be img) (Ysize be img) (cols baton) (rows baton) of
           (left, top', width, height) \<Rightarrow>
             (case im_embed be img (embed baton) left top' width height w of
                (None, w') \<Rightarrow>
                  ([Call_embed img (embed baton) left top' width height],
                   Inl (vips_fail be baton w'))
              | (Some t2, w') \<Rightarrow>
                  ([Call_embed img (embed baton) left top' width height], Inr (t2, w')))))"

subsection \<open>Mild sharpen (lines 121-132)\<close>

definition sharpen :: INTMASK where
  "sharpen =
     (im_create_imaskv ''sharpen'' 3 3
        [-1, -1, -1,
         -1, 32, -1,
         -1, -1, -1])\<lparr>scale := 24\<rparr>"

definition sharpen_stage ::
  "('img, 'w) vips \<Rightarrow> ResizeBaton \<Rightarrow> 'img \<Rightarrow> 'w \<Rightarrow> ('img, 'w) stage" where
  "sharpen_stage be baton img w =
     (case im_conv be img sharpen w of
        (None, w') \<Rightarrow> ([Call_conv img sharpen], Inl (vips_fail be baton w'))
      | (Some t3, w') \<Rightarrow> ([Call_conv img sharpen], Inr (t3, w')))"

subsection \<open>Encoding (lines 134-162)\<close>

definition jpeg_options :: save_options where
  "jpeg_options = [(''strip'', 1), (''Q'', 80), (''optimize_coding'', 1)]"

definition png_options :: save_options where
  "png_options = [(''strip'', 1), (''compression'', 6), (''interlace'', 0)]"

definition encode ::
  "('img, 'w) vips \<Rightarrow> ResizeBaton \<Rightarrow> 'img \<Rightarrow> 'w \<Rightarrow> 'img vips_call list \<times> ResizeBaton \<times> 'w"
  where
  "encode be baton img w =
     (if dst baton = ''__jpeg'' then
        (case vips_jpegsave_buffer be img jpeg_options w of
           ((rc, buf, len), w') \<Rightarrow>
             ([Call_jpegsave_buffer img jpeg_options],
              if rc \<noteq> 0
              then vips_fail be (baton\<lparr>buffer_out := buf, buffer_out_len := len\<rparr>) w'
              else (baton\<lparr>buffer_out := buf, buffer_out_len := len\<rparr>, w')))
      else if dst baton = ''__png'' then
        (case vips_pngsave_buffer be img png_options w of
           ((rc, buf, len), w') \<Rightarrow>
             ([Call_pngsave_buffer img png_options],
              if rc \<noteq> 0
              then vips_fail be (baton\<lparr>buffer_out := buf, buffer_out_len := len\<rparr>) w'
              else (baton\<lparr>buffer_out := buf, buffer_out_len := len\<rparr>, w')))
      else if EndsWith (dst baton) ''.jpg'' \<or> EndsWith (dst baton) ''.jpeg'' then
        (case vips_foreign_save be img (dst baton) jpeg_options w of
           (rc, w') \<Rightarrow>
             ([Call_foreign_save img (dst baton) jpeg_options],
              if rc \<noteq> 0 then vips_fail be baton w' else (baton, w')))
      else if EndsWith (dst baton) ''.png'' then
        (case vips_foreign_save be img (dst baton) png_options w of
           (rc, w') \<Rightarrow>
             ([Call_foreign_save img (dst baton) png_options],
              if rc \<noteq> 0 then vips_fail be baton w' else (baton, w')))
      else ([], baton\<lparr>err := err baton @ ''Unsupported output file type''\<rparr>, w))"

subsection \<open>\<^verbatim>\<open>ResizeAsync\<close> (lines 48-163)\<close>

text \<open>Lines 51-132: from the source path to the sharpened image.\<close>

definition transform :: "('img, 'w) vips \<Rightarrow> ResizeBaton \<Rightarrow> 'w \<Rightarrow> ('img, 'w) stage" where
  "transform be baton w =
     andthen (andthen (andthen (andthen (decode be baton w)
       (open_local be baton)) (resample be baton)) (canvas be baton)) (sharpen_stage be baton)"

text \<open>The whole worker: the library calls made, the baton and the library state it leaves.\<close>

definition ResizeAsync ::
  "('img, 'w) vips \<Rightarrow> ResizeBaton \<Rightarrow> 'w \<Rightarrow> 'img vips_call list \<times> ResizeBaton \<times> 'w" where
  "ResizeAsync be baton w =
     (case transform be baton w of
        (cs, Inl (baton', w')) \<Rightarrow> (cs, baton', w')
      | (cs, Inr (img, w')) \<Rightarrow>
          (case encode be baton img w' of (cs', baton', w'') \<Rightarrow> (cs @ cs', baton', w'')))"

subsection \<open>\<^verbatim>\<open>ResizeAsyncAfter\<close> (lines 165-185)\<close>

text \<open>
  The result is the list of calls made to the JavaScript callback, each with its two
  arguments; \<open>None\<close> is JavaScript's \<^verbatim>\<open>null\<close>. \<^verbatim>\<open>Buffer::New\<close> copies \<^verbatim>\<open>buffer_out_len\<close>
  bytes.
\<close>

type_synonym callback_call = "string option \<times> bytes option"

definition ResizeAsyncAfter :: "ResizeBaton \<Rightarrow> callback_call list" where
  "ResizeAsyncAfter baton =
     (let argv = (None, None);
          argv = (if err baton \<noteq> [] then (Some (err baton), snd argv)
                  else if 0 < buffer_out_len baton
                  then (fst argv, Some (take (buffer_out_len baton) (buffer_out baton)))
                  else argv)
      in [argv])"

subsection \<open>\<^verbatim>\<open>Resize\<close> (lines 187-211)\<close>

text \<open>
  The arguments after V8's conversions: two strings, two 32-bit integers, the canvas string.
\<close>

record Arguments =
  arg_src :: string
  arg_dst :: string
  arg_cols :: int
  arg_rows :: int
  arg_canvas :: string

definition Resize :: "ResizeBaton \<Rightarrow> Arguments \<Rightarrow> ResizeBaton" where
  "Resize raw args =
     (let baton = ResizeBaton_new raw;
          baton = baton\<lparr>src := arg_src args, dst := arg_dst args,
                        cols := arg_cols args, rows := arg_rows args\<rparr>
      in if arg_canvas args = ''c'' then baton\<lparr>crop := True\<rparr>
         else if arg_canvas args = ''w'' then baton\<lparr>crop := False, embed := 4\<rparr>
         else if arg_canvas args = ''b'' then baton\<lparr>crop := False, embed := 0\<rparr>
         else baton)"

text \<open>
  \<^verbatim>\<open>uv_queue_work\<close> runs \<^verbatim>\<open>ResizeAsync\<close> on a worker thread and then \<^verbatim>\<open>ResizeAsyncAfter\<close>
  once on the loop thread. \<open>resize\<close> is one request from submission to completion: the
  calls made to the callback, the library calls made and the final library state.
\<close>

definition resize ::
  "('img, 'w) vips \<Rightarrow> ResizeBaton \<Rightarrow> Arguments \<Rightarrow> 'w \<Rightarrow>
   callback_call list \<times> 'img vips_call list \<times> 'w" where
  "resize be raw args w =
     (case ResizeAsync be (Resize raw args) w of
        (cs, baton, w') \<Rightarrow> (ResizeAsyncAfter baton, cs, w'))"

subsection \<open>Auxiliary notions\<close>

text \<open>\<open>contains s sub\<close>: the string \<open>sub\<close> occurs in \<open>s\<close>.\<close>

fun contains :: "string \<Rightarrow> string \<Rightarrow> bool" where
  "contains [] sub = (sub = [])"
| "contains (c # s) sub = (take (length sub) (c # s) = sub \<or> contains s sub)"

text \<open>\<open>err_appended b b'\<close>: the baton \<open>b'\<close> is \<open>b\<close> with text appended to \<^verbatim>\<open>err\<close>.\<close>

definition err_appended :: "ResizeBaton \<Rightarrow> ResizeBaton \<Rightarrow> bool" where
  "err_appended b b' \<longleftrightarrow> (\<exists>m. b' = b\<lparr>err := err b @ m\<rparr>)"

text \<open>
  A library reports its errors when every call that fails leaves a non-empty message in the
  error buffer, as libvips does.
\<close>

definition reports_errors :: "('img, 'w) vips \<Rightarrow> bool" where
  "reports_errors be \<longleftrightarrow>
     (\<forall>name p w w'. vips_jpegload be name p w = (None, w') \<longrightarrow> vips_error_buffer be w' \<noteq> []) \<and>
     (\<forall>name p w w'. vips_pngload be name p w = (None, w') \<longrightarrow> vips_error_buffer be w' \<noteq> []) \<and>
     (\<forall>img n a m w rc w'. im_open_local_array be img n a m w = (rc, w') \<longrightarrow> rc \<noteq> 0 \<longrightarrow>
        vips_error_buffer be w' \<noteq> []) \<and>
     (\<forall>img xs ys w w'. im_shrink be img xs ys w = (None, w') \<longrightarrow> vips_error_buffer be w' \<noteq> []) \<and>
     (\<forall>img i a b c d dx dy w w'. im_affinei_all be img i a b c d dx dy w = (None, w') \<longrightarrow>
        vips_error_buffer be w' \<noteq> []) \<and>
     (\<forall>img l t wd ht w w'. im_extract_area be img l t wd ht w = (None, w') \<longrightarrow>
        vips_error_buffer be w' \<noteq> []) \<and>
     (\<forall>img e l t wd ht w w'. im_embed be img e l t wd ht w = (None, w') \<longrightarrow>
        vips_error_buffer be w' \<noteq> []) \<and>
     (\<forall>img m w w'. im_conv be img m w = (None, w') \<longrightarrow> vips_error_buffer be w' \<noteq> []) \<and>
     (\<forall>img os w rc buf len w'. vips_jpegsave_buffer be img os w = ((rc, buf, len), w') \<longrightarrow>
        rc \<noteq> 0 \<longrightarrow> vips_error_buffer be w' \<noteq> []) \<and>
     (\<forall>img os w rc buf len w'. vips_pngsave_buffer be img os w = ((rc, buf, len), w') \<longrightarrow>
        rc \<noteq> 0 \<longrightarrow> vips_error_buffer be w' \<noteq> []) \<and>
     (\<forall>img name os w rc w'. vips_foreign_save be img name os w = (rc, w') \<longrightarrow> rc \<noteq> 0 \<longrightarrow>
        vips_error_buffer be w' \<noteq> [])"

text \<open>
  A library keeps the geometry when \<^verbatim>\<open>im_extract_area\<close> returns an image of the size asked
  for and \<^verbatim>\<open>im_conv\<close> returns an image of the size of its input, as libvips does.
\<close>

definition keeps_geometry :: "('img, 'w) vips \<Rightarrow> bool" where
  "keeps_geometry be \<longleftrightarrow>
     (\<forall>img l t wd ht w t2 w'. im_extract_area be img l t wd ht w = (Some t2, w') \<longrightarrow>
        Xsize be t2 = wd \<and> Ysize be t2 = ht) \<and>
     (\<forall>img m w t3 w'. im_conv be img m w = (Some t3, w') \<longrightarrow>
        Xsize be t3 = Xsize be img \<and> Ysize be t3 = Ysize be img)"

subsection \<open>A reference library\<close>

text \<open>
  An instance of the library interface on which the worker can be run: an image is its
  width and height, the library state is the error buffer. Every source path decodes to an
  image of the given size (to nothing when the size is not positive). The sizes of the
  results follow libvips: \<^verbatim>\<open>im_shrink\<close> rounds the size down, \<^verbatim>\<open>im_affinei_all\<close> rounds the
  transformed extent (the size times the scale) to the nearest integer, \<^verbatim>\<open>im_extract_area\<close>
  and \<^verbatim>\<open>im_embed\<close> return the area asked for, and \<^verbatim>\<open>im_conv\<close> keeps the size.
\<close>

text \<open>
  The library's rounding macro, \<^verbatim>\<open>(int) ((R) > 0 ? ((R) + 0.5) : ((R) - 0.5))\<close>: the
  conversion to \<^verbatim>\<open>int\<close> truncates.
\<close>

definition VIPS_RINT :: "real \<Rightarrow> int" where
  "VIPS_RINT r = (if 0 < r then \<lfloor>rd (r + 1 / 2)\<rfloor> else \<lceil>rd (r - 1 / 2)\<rceil>)"

definition ref_vips :: "int \<Rightarrow> int \<Rightarrow> (int \<times> int, string) vips" where
  "ref_vips sw sh =
     \<lparr>Xsize = fst,
      Ysize = snd,
      vips_image_new_mode = (\<lambda>name mode w. (Some (1, 1), w)),
      vips_jpegload = (\<lambda>name p w.
        if 1 \<le> sw \<and> 1 \<le> sh then (Some (sw, sh), w)
        else (None, w @ ''VipsJpeg: unable to open'')),
      vips_pngload = (\<lambda>name p w.
        if 1 \<le> sw \<and> 1 \<le> sh then (Some (sw, sh), w)
        else (None, w @ ''vips2png: unable to open'')),
      im_open_local_array = (\<lambda>img n name mode w. (0, w)),
      im_shrink = (\<lambda>img xs ys w.
        if 1 \<le> xs \<and> 1 \<le> ys \<and> 1 \<le> fst img sdiv xs \<and> 1 \<le> snd img sdiv ys
        then (Some (fst img sdiv xs, snd img sdiv ys), w)
        else (None, w @ ''im_shrink: image has shrunk to nothing'')),
      im_affinei_all = (\<lambda>img i a b c d dx dy w.
        if 1 \<le> VIPS_RINT (fmul (of_int (fst img)) a) \<and>
           1 \<le> VIPS_RINT (fmul (of_int (snd img)) d)
        then (Some (VIPS_RINT (fmul (of_int (fst img)) a),
                    VIPS_RINT (fmul (of_int (snd img)) d)), w)
        else (None, w @ ''im_affinei: output coordinates out of range'')),
      im_extract_area = (\<lambda>img l t wd ht w.
        if 0 \<le> l \<and> 0 \<le> t \<and> 1 \<le> wd \<and> 1 \<le> ht \<and> l + wd \<le> fst img \<and> t + ht \<le> snd img
        then (Some (wd, ht), w)
        else (None, w @ ''im_extract_area: bad extract area'')),
      im_embed = (\<lambda>img e l t wd ht w.
        if 1 \<le> wd \<and> 1 \<le> ht then (Some (wd, ht), w)
        else (None, w @ ''im_embed: bad dimensions'')),
      im_conv = (\<lambda>img m w. (Some img, w)),
      vips_jpegsave_buffer = (\<lambda>img os w. ((0, [255, 216, 255], 3), w)),
      vips_pngsave_buffer = (\<lambda>img os w. ((0, [137, 80, 78, 71], 4), w)),
      vips_foreign_save = (\<lambda>img name os w. (0, w)),
      vips_error_buffer = (\<lambda>w. w),
      vips_error_clear = (\<lambda>w. [])\<rparr>"

text \<open>Freshly allocated memory for a baton, and a request.\<close>

definition raw0 :: ResizeBaton where
  "raw0 = \<lparr>src = ''?'', dst = ''?'', buffer_out = [7], buffer_out_len = 9, cols = - 5,
           rows = 77, crop = True, embed = 3, err = ''?''\<rparr>"

definition request :: "string \<Rightarrow> string \<Rightarrow> int \<Rightarrow> int \<Rightarrow> string \<Rightarrow> Arguments" where
  "request s d c r cv =
     \<lparr>arg_src = s, arg_dst = d, arg_cols = c, arg_rows = r, arg_canvas = cv\<rparr>"

section \<open>Properties of the rounding\<close>

lemma pow2_step: "(2::real) powi (1 + k) = 2 * 2 powi k"
  by (simp add: power_int_add)

lemma pow2_step': "(2::real) powi (k + 1) = 2 * 2 powi k"
  by (simp add: power_int_add)

lemma pow2_step2: "(2::real) powi (2 + k) = 4 * 2 powi k"
  by (simp add: power_int_add)

lemma pow2_pred: "2 * (2::real) powi (k - 1) = 2 powi k"
  using pow2_step [of "k - 1"] by simp

text \<open>The upward search finds the exponent of every \<open>x\<close> from 1 up to \<open>2 ^ Suc n\<close>.\<close>

lemma expo_up_bracket:
  "1 \<le> x \<Longrightarrow> x < 2 ^ Suc n \<Longrightarrow> 2 powi (expo_up n x) \<le> x \<and> x < 2 powi (expo_up n x + 1)"
proof (induction n arbitrary: x)
  case 0
  then show ?case by simp
next
  case (Suc n)
  show ?case
  proof (cases "x < 2")
    case True
    with Suc.prems show ?thesis by simp
  next
    case False
    with Suc.prems have "1 \<le> x / 2" "x / 2 < 2 ^ Suc n" by simp_all
    from Suc.IH [OF this]
    have "2 * 2 powi (expo_up n (x / 2)) \<le> x" "x < 2 * 2 powi (expo_up n (x / 2) + 1)"
      by simp_all
    with False show ?thesis
      by (simp add: pow2_step pow2_step' pow2_step2)
  qed
qed

lemma expo_down_zero: "1 \<le> x \<Longrightarrow> expo_down n x = 0"
  by (cases n) simp_all

text \<open>The downward search finds the exponent of every \<open>x\<close> below 1 down to \<open>1 / 2 ^ n\<close>.\<close>

lemma expo_down_bracket:
  "0 < x \<Longrightarrow> x < 1 \<Longrightarrow> 1 \<le> x * 2 ^ n \<Longrightarrow>
   2 powi (expo_down n x) \<le> x \<and> x < 2 powi (expo_down n x + 1)"
proof (induction n arbitrary: x)
  case 0
  then show ?case by simp
next
  case (Suc n)
  show ?case
  proof (cases "1 \<le> 2 * x")
    case True
    with Suc.prems show ?thesis
      by (simp add: expo_down_zero power_int_minus field_simps)
  next
    case False
    with Suc.prems have "0 < 2 * x" "2 * x < 1" "1 \<le> 2 * x * 2 ^ n"
      by (simp_all add: mult.assoc mult.left_commute)
    from Suc.IH [OF this]
    have "2 powi (expo_down n (2 * x)) \<le> 2 * x" "2 * x < 2 powi (expo_down n (2 * x) + 1)"
      by simp_all
    then have "2 * 2 powi (expo_down n (2 * x) - 1) \<le> 2 * x"
      "2 * x < 2 * 2 powi (expo_down n (2 * x))"
      by (simp_all add: pow2_pred pow2_step')
    with Suc.prems show ?thesis by simp
  qed
qed

lemma expo_bracket:
  assumes "2 powi (- 1022) \<le> \<bar>x\<bar>" "\<bar>x\<bar> < 2 powi 1024"
  shows "2 powi (expo x) \<le> \<bar>x\<bar> \<and> \<bar>x\<bar> < 2 powi (expo x + 1)"
proof (cases "1 \<le> \<bar>x\<bar>")
  case True
  have "\<bar>x\<bar> < 2 ^ Suc 1023" using assms(2) by simp
  from expo_up_bracket [OF True this] True show ?thesis by (simp add: expo_def)
next
  case False
  have pos: "0 < \<bar>x\<bar>"
    using assms(1) zero_less_power_int [of "2::real" "- 1022"] by linarith
  have "1 \<le> \<bar>x\<bar> * 2 ^ 1022"
    using assms(1) by (simp add: power_int_minus field_simps)
  from expo_down_bracket [OF pos _ this] False show ?thesis by (simp add: expo_def)
qed

lemma rne_ge: "of_int a \<le> t \<Longrightarrow> a \<le> rne t"
proof -
  assume "of_int a \<le> t"
  then have "a \<le> \<lfloor>t\<rfloor>" by (simp add: le_floor_iff)
  then show ?thesis by (simp add: rne_def Let_def)
qed

lemma rne_le: "t \<le> of_int b \<Longrightarrow> rne t \<le> b"
proof (cases "t = of_int b")
  case True
  then show ?thesis by (simp add: rne_def)
next
  case False
  assume "t \<le> of_int b"
  with False have "t < of_int b" by simp
  then have "\<lfloor>t\<rfloor> < b" by (simp add: floor_less_iff)
  then show ?thesis by (simp add: rne_def Let_def)
qed

lemma pow2_split: "(2::real) ^ 52 * 2 powi (e - 52) = 2 powi e"
proof -
  have "(2::real) powi (52 + (e - 52)) = 2 powi 52 * 2 powi (e - 52)"
    by (rule power_int_add) simp
  then show ?thesis by simp
qed

lemma pow2_split': "(2::real) ^ 53 * 2 powi (e - 52) = 2 powi (e + 1)"
proof -
  have "(2::real) ^ 53 * 2 powi (e - 52) = 2 * (2 ^ 52 * 2 powi (e - 52))" by simp
  then show ?thesis by (simp only: pow2_split pow2_step')
qed

lemma rd_pos_eq:
  "0 < x \<Longrightarrow> rd x = of_int (rne (x / 2 powi (expo x - 52))) * 2 powi (expo x - 52)"
  by (simp add: rd_def)

text \<open>Rounding a positive number in range keeps it between the two powers of two around it.\<close>

lemma rd_bracket:
  assumes "0 < x" "2 powi (- 1022) \<le> x" "x < 2 powi 1024"
  shows "2 powi (expo x) \<le> rd x \<and> rd x \<le> 2 powi (expo x + 1)"
proof -
  define u :: real where "u = 2 powi (expo x - 52)"
  have u: "0 < u" by (simp add: u_def)
  from expo_bracket [of x] assms
  have b: "2 powi (expo x) \<le> x" "x < 2 powi (expo x + 1)" by simp_all
  have lo: "of_int (2 ^ 52) \<le> x / u"
    using b(1) u pow2_split [of "expo x"] by (simp add: u_def field_simps)
  have hi: "x / u \<le> of_int (2 ^ 53)"
    using b(2) u pow2_split' [of "expo x"] by (simp add: u_def field_simps)
  have A: "2 ^ 52 * u = 2 powi (expo x)"
    unfolding u_def by (rule pow2_split)
  have B: "2 ^ 53 * u = 2 powi (expo x + 1)"
    unfolding u_def by (rule pow2_split')
  have R: "rd x = of_int (rne (x / u)) * u"
    unfolding u_def using assms(1) by (rule rd_pos_eq)
  from rne_ge [OF lo] have "(2::real) ^ 52 \<le> of_int (rne (x / u))"
    by (metis of_int_le_iff of_int_numeral of_int_power)
  then have L: "2 ^ 52 * u \<le> of_int (rne (x / u)) * u"
    using u by (rule mult_right_mono [OF _ less_imp_le])
  from rne_le [OF hi] have "of_int (rne (x / u)) \<le> (2::real) ^ 53"
    by (metis of_int_le_iff of_int_numeral of_int_power)
  then have U: "of_int (rne (x / u)) * u \<le> 2 ^ 53 * u"
    using u by (rule mult_right_mono [OF _ less_imp_le])
  from L [unfolded A] U [unfolded B] show ?thesis
    unfolding R by (rule conjI)
qed

lemma rd_pos:
  assumes "0 < x" "2 powi (- 1022) \<le> x" "x < 2 powi 1024"
  shows "0 < rd x"
proof -
  have "0 < (2::real) powi (expo x)" by simp
  with rd_bracket [OF assms] show ?thesis by linarith
qed

lemma rd_one: "rd 1 = 1"
  by (simp add: rd_def expo_def eval_nat_numeral rne_def)

lemma rd_le_one:
  assumes "0 < x" "2 powi (- 1022) \<le> x" "x \<le> 1"
  shows "rd x \<le> 1"
proof (cases "x = 1")
  case True
  then show ?thesis by (simp add: rd_one)
next
  case False
  with assms have lt: "x < 1" by simp
  then have r: "x < 2 powi 1024" by simp
  from expo_bracket [of x] assms r have "2 powi (expo x) \<le> x" by simp
  with lt have "(2::real) powi (expo x) < 2 powi 0" by simp
  then have "expo x < 0" by (rule power_int_le_imp_less_exp [rotated]) simp_all
  then have "(2::real) powi (expo x + 1) \<le> 2 powi 0"
    by (intro power_int_increasing) simp_all
  with rd_bracket [OF assms(1,2) r] show ?thesis by simp
qed

lemma rd_nonpos: "x \<le> 0 \<Longrightarrow> rd x \<le> 0"
proof -
  assume x: "x \<le> 0"
  have "0 \<le> \<bar>x\<bar> / 2 powi (expo x - 52)" by simp
  then have "of_int 0 \<le> \<bar>x\<bar> / 2 powi (expo x - 52)" by simp
  from rne_ge [OF this] have "0 \<le> rne (\<bar>x\<bar> / 2 powi (expo x - 52))" .
  then have "0 \<le> of_int (rne (\<bar>x\<bar> / 2 powi (expo x - 52))) * (2::real) powi (expo x - 52)"
    by simp
  with x show ?thesis
    by (simp add: rd_def sgn_real_def mult_le_0_iff)
qed

text \<open>Rounding never crosses an integer below \<open>2 ^ 53\<close>: such integers are binary64 values.\<close>

lemma rd_le_of_int:
  assumes "0 < x" "2 powi (- 1022) \<le> x" "x \<le> of_int n" "n < 2 ^ 53"
  shows "rd x \<le> of_int n"
proof -
  have "of_int n < (2::real) ^ 53"
    using assms(4) by (metis of_int_less_iff of_int_numeral of_int_power)
  with assms(3) have x53: "x < 2 powi 53" by simp
  then have r: "x < 2 powi 1024" by simp
  from expo_bracket [of x] assms r have "2 powi (expo x) \<le> x" by simp
  with x53 have "(2::real) powi (expo x) < 2 powi 53" by simp
  then have e: "expo x < 53" by (rule power_int_le_imp_less_exp [rotated]) simp_all
  define k where "k = nat (52 - expo x)"
  have k: "expo x - 52 = - int k" using e by (simp add: k_def)
  have u: "(2::real) powi (expo x - 52) = inverse (2 ^ k)"
    by (simp add: k power_int_minus)
  have "x * 2 ^ k \<le> of_int (n * 2 ^ k)"
    using assms(3) by simp
  from rne_le [OF this] have "of_int (rne (x * 2 ^ k)) \<le> (of_int (n * 2 ^ k) :: real)"
    by (simp only: of_int_le_iff)
  then have "of_int (rne (x * 2 ^ k)) * inverse (2 ^ k) \<le> (of_int n :: real)"
    by (simp add: field_simps)
  then show ?thesis
    using assms(1) by (simp add: rd_pos_eq u divide_inverse)
qed

section \<open>The scale factors\<close>

lemma tiny_le: "(2::real) powi (- 1022) \<le> 1 / 2147483648"
proof -
  have "(2::real) powi (- 1022) \<le> 2 powi (- 31)"
    by (rule power_int_increasing) simp_all
  then show ?thesis by (simp add: power_int_minus)
qed

text \<open>A quotient of a 32-bit size by a clamped 32-bit target stays a 32-bit value.\<close>

lemma fdiv_target_le:
  assumes "int32 xs" "int32 c"
  shows "fdiv (of_int xs) (of_int (max c 1)) \<le> 2147483647"
proof (cases "xs \<le> 0")
  case True
  then have "real_of_int xs / of_int (max c 1) \<le> 0"
    by (simp add: divide_nonpos_pos)
  from rd_nonpos [OF this] show ?thesis by (simp add: fdiv_def)
next
  case False
  define d where "d = max c 1"
  have d: "1 \<le> d" "d \<le> 2147483647"
    using assms(2) by (simp_all add: d_def int32_def)
  have xs: "1 \<le> xs" "xs \<le> 2147483647"
    using False assms(1) by (simp_all add: int32_def)
  define q :: real where "q = of_int xs / of_int d"
  have qpos: "0 < q" using d xs by (simp add: q_def)
  have "1 / 2147483648 \<le> 1 / real_of_int d"
    using d by (simp add: field_simps)
  also have "\<dots> \<le> q"
    using d xs by (simp add: q_def field_simps)
  finally have qlo: "2 powi (- 1022) \<le> q" using tiny_le by linarith
  have "q \<le> of_int xs"
    using d xs by (simp add: q_def field_simps mult_le_cancel_left1)
  also have "\<dots> \<le> of_int 2147483647" using xs by simp
  finally have "q \<le> of_int 2147483647" .
  from rd_le_of_int [OF qpos qlo this] show ?thesis
    by (simp add: fdiv_def q_def d_def)
qed

lemma factor_ge_one: "1 \<le> factor (plan xs ys c r cr)"
  by (simp add: plan_def Let_def)

lemma factor_le:
  assumes "int32 xs" "int32 ys" "int32 c" "int32 r"
  shows "factor (plan xs ys c r cr) \<le> 2147483647"
  using fdiv_target_le [OF assms(1,3)] fdiv_target_le [OF assms(2,4)]
  by (simp add: plan_def Let_def min_def max_def)

lemma shrink_eq: "shrink (plan xs ys c r cr) = \<lfloor>factor (plan xs ys c r cr)\<rfloor>"
  by (simp add: plan_def Let_def)

lemma residual_eq:
  "residual (plan xs ys c r cr) =
     fdiv (of_int (shrink (plan xs ys c r cr))) (factor (plan xs ys c r cr))"
  by (simp add: plan_def Let_def)

lemma shrink_ge_one: "1 \<le> shrink (plan xs ys c r cr)"
  using factor_ge_one [of xs ys c r cr] by (simp add: shrink_eq le_floor_iff)

text \<open>
  The conversion \<^verbatim>\<open>int shrink = floor(factor)\<close> is defined: the floor of the factor is a
  32-bit value whenever the sizes and targets are.
\<close>

lemma shrink_int32:
  assumes "int32 xs" "int32 ys" "int32 c" "int32 r"
  shows "int32 (shrink (plan xs ys c r cr))"
proof -
  have "\<lfloor>factor (plan xs ys c r cr)\<rfloor> \<le> \<lfloor>2147483647 :: real\<rfloor>"
    using factor_le [OF assms] by (rule floor_mono)
  with shrink_ge_one [of xs ys c r cr] show ?thesis
    by (simp add: int32_def shrink_eq)
qed

text \<open>
  Claim C3. For every source size \<open>xs\<close> by \<open>ys\<close> and every target \<open>c\<close> by \<open>r\<close>, the factors
  are the rounded quotients by the targets clamped to at least 1, the chosen factor is the
  smaller of the two under crop and the larger one otherwise, clamped below at 1, so it is at
  least 1, and the shrink is its floor and at least 1.
\<close>

theorem planner_factor:
  "xfactor (plan xs ys c r cr) = fdiv (of_int xs) (of_int (max c 1))
   \<and> yfactor (plan xs ys c r cr) = fdiv (of_int ys) (of_int (max r 1))
   \<and> factor (plan xs ys c r cr) =
       max (if cr then min (xfactor (plan xs ys c r cr)) (yfactor (plan xs ys c r cr))
            else max (xfactor (plan xs ys c r cr)) (yfactor (plan xs ys c r cr))) 1
   \<and> 1 \<le> factor (plan xs ys c r cr)
   \<and> shrink (plan xs ys c r cr) = \<lfloor>factor (plan xs ys c r cr)\<rfloor>
   \<and> 1 \<le> shrink (plan xs ys c r cr)"
  using shrink_ge_one [of xs ys c r cr] by (simp add: plan_def Let_def)

text \<open>
  Claim C4. For all 32-bit source sizes and targets, the residual, the rounded quotient of
  the shrink by the factor, is greater than 0 and at most 1.
\<close>

theorem residual_range:
  assumes "int32 xs" "int32 ys" "int32 c" "int32 r"
  shows "0 < residual (plan xs ys c r cr) \<and> residual (plan xs ys c r cr) \<le> 1"
proof -
  define f where "f = factor (plan xs ys c r cr)"
  define s where "s = shrink (plan xs ys c r cr)"
  have f: "1 \<le> f" "f \<le> 2147483647"
    using factor_ge_one [of xs ys c r cr] factor_le [OF assms] by (simp_all add: f_def)
  have s: "1 \<le> s" "of_int s \<le> f"
    using shrink_ge_one [of xs ys c r cr] by (simp_all add: s_def f_def shrink_eq)
  define q where "q = of_int s / f"
  have qpos: "0 < q" using f s by (simp add: q_def)
  have qle: "q \<le> 1" using f s by (simp add: q_def)
  have "1 / 2147483648 \<le> 1 / f" using f by (simp add: field_simps)
  also have "\<dots> \<le> q" using f s by (simp add: q_def field_simps)
  finally have qlo: "2 powi (- 1022) \<le> q" using tiny_le by linarith
  have qlt: "q < 2 powi 1024" using qle by simp
  have "residual (plan xs ys c r cr) = rd q"
    by (simp add: residual_eq fdiv_def q_def s_def f_def)
  with rd_pos [OF qpos qlo qlt] rd_le_one [OF qpos qlo qle] show ?thesis by simp
qed

theorem residual_range_witness:
  "int32 11 \<and> int32 3 \<and> 0 < residual (plan 11 11 3 3 True)
   \<and> residual (plan 11 11 3 3 True) \<le> 1"
  using residual_range [of 11 11 3 3 True] by (simp add: int32_def)

section \<open>The suffix test\<close>

text \<open>\<^verbatim>\<open>EndsWith\<close> compares bytes: it holds exactly when the string ends with the suffix.\<close>

lemma EndsWith_iff: "EndsWith s e \<longleftrightarrow> (\<exists>p. s = p @ e)"
proof
  assume a: "EndsWith s e"
  then have "drop (length s - length e) s = e"
    by (simp add: EndsWith_def)
  then have "s = take (length s - length e) s @ e"
    by (metis append_take_drop_id)
  then show "\<exists>p. s = p @ e" ..
next
  assume "\<exists>p. s = p @ e"
  then show "EndsWith s e" by (auto simp: EndsWith_def)
qed

lemma EndsWith_append:
  "EndsWith (base @ suf) e \<longleftrightarrow>
     (if length e \<le> length suf then EndsWith suf e
      else drop (length e - length suf) e = suf \<and>
           EndsWith base (take (length e - length suf) e))"
proof (cases "length e \<le> length suf")
  case True
  then show ?thesis by (simp add: EndsWith_def)
next
  case False
  then have lt: "length suf < length e" by simp
  show ?thesis
  proof
    assume "EndsWith (base @ suf) e"
    then obtain p where p: "base @ suf = p @ e" by (auto simp: EndsWith_iff)
    then have "drop (length (p @ e) - length suf) (p @ e) = suf"
      by (metis append_eq_conv_conj length_append add_diff_cancel_right')
    with lt have e: "drop (length e - length suf) e = suf" by simp
    then have "e = take (length e - length suf) e @ suf"
      by (metis append_take_drop_id)
    with p have "base @ suf = (p @ take (length e - length suf) e) @ suf" by simp
    then have "base = p @ take (length e - length suf) e" by (simp only: append_same_eq)
    with e lt show "if length e \<le> length suf then EndsWith suf e
      else drop (length e - length suf) e = suf \<and> EndsWith base (take (length e - length suf) e)"
      by (auto simp: EndsWith_iff)
  next
    assume "if length e \<le> length suf then EndsWith suf e
      else drop (length e - length suf) e = suf \<and> EndsWith base (take (length e - length suf) e)"
    with lt obtain p where "drop (length e - length suf) e = suf"
      "base = p @ take (length e - length suf) e" by (auto simp: EndsWith_iff)
    then have "base @ suf = p @ e"
      by (metis append.assoc append_take_drop_id)
    then show "EndsWith (base @ suf) e" by (auto simp: EndsWith_iff)
  qed
qed

text \<open>
  Upper-case spellings match none of the three suffixes and are not a sentinel; the
  lower-case spellings match.
\<close>

lemma upper_not_EndsWith:
  assumes "u \<in> {''.JPG'', ''.JPEG'', ''.Jpeg'', ''.PNG''}"
  shows "\<not> EndsWith (base @ u) ''.jpg''" "\<not> EndsWith (base @ u) ''.jpeg''"
    "\<not> EndsWith (base @ u) ''.png''"
  using assms by (auto simp: EndsWith_append EndsWith_def)

lemma upper_not_sentinel:
  assumes "u \<in> {''.JPG'', ''.JPEG'', ''.Jpeg'', ''.PNG''}"
  shows "base @ u \<noteq> ''__jpeg''" "base @ u \<noteq> ''__png''"
proof -
  have "\<not> EndsWith ''__jpeg'' u" "\<not> EndsWith ''__png'' u"
    using assms by (auto simp: EndsWith_def)
  then show "base @ u \<noteq> ''__jpeg''" "base @ u \<noteq> ''__png''"
    by (metis EndsWith_iff)+
qed

lemma lower_EndsWith:
  "EndsWith (base @ ''.jpg'') ''.jpg''" "EndsWith (base @ ''.jpeg'') ''.jpeg''"
  "EndsWith (base @ ''.png'') ''.png''"
  by (simp_all add: EndsWith_iff)

lemma lower_not_sentinel:
  assumes "l \<in> {''.jpg'', ''.jpeg'', ''.png''}"
  shows "base @ l \<noteq> ''__jpeg''" "base @ l \<noteq> ''__png''"
proof -
  have "\<not> EndsWith ''__jpeg'' l" "\<not> EndsWith ''__png'' l"
    using assms by (auto simp: EndsWith_def)
  then show "base @ l \<noteq> ''__jpeg''" "base @ l \<noteq> ''__png''"
    by (metis EndsWith_iff)+
qed

lemma png_not_jpeg: "\<not> EndsWith (base @ ''.png'') ''.jpg''" "\<not> EndsWith (base @ ''.png'') ''.jpeg''"
  by (simp_all add: EndsWith_append EndsWith_def)

section \<open>The stages of the worker\<close>

lemma Resize_fields:
  "src (Resize raw a) = arg_src a"
  "dst (Resize raw a) = arg_dst a"
  "cols (Resize raw a) = arg_cols a"
  "rows (Resize raw a) = arg_rows a"
  "err (Resize raw a) = []"
  "buffer_out_len (Resize raw a) = 0"
  by (simp_all add: Resize_def ResizeBaton_new_def Let_def)

subsection \<open>Stages in sequence\<close>

lemma andthen_Inl:
  assumes "andthen r f = (cs, Inl x)"
  shows "r = (cs, Inl x) \<or>
         (\<exists>cs1 img w cs2. r = (cs1, Inr (img, w)) \<and> f img w = (cs2, Inl x) \<and> cs = cs1 @ cs2)"
  using assms by (auto simp: andthen_def split: prod.splits sum.splits)

lemma andthen_Inr:
  assumes "andthen r f = (cs, Inr y)"
  shows "\<exists>cs1 img w cs2. r = (cs1, Inr (img, w)) \<and> f img w = (cs2, Inr y) \<and> cs = cs1 @ cs2"
  using assms by (auto simp: andthen_def split: prod.splits sum.splits)

lemma andthen_Inl_eq: "andthen (cs, Inl x) f = (cs, Inl x)"
  by (simp add: andthen_def)

lemma andthen_calls:
  assumes "c \<in> set (fst (andthen r f))"
  shows "c \<in> set (fst r) \<or> (\<exists>img w. c \<in> set (fst (f img w)))"
  using assms by (auto simp: andthen_def split: prod.splits sum.splits) (metis fst_conv)

subsection \<open>A stage that returns has only appended to the error string\<close>

lemma decode_Inl: "decode be b w = (cs, Inl (b', w')) \<Longrightarrow> err_appended b b'"
  by (auto simp: decode_def vips_fail_def err_appended_def split: prod.splits option.splits if_splits)

lemma open_local_Inl: "open_local be b img w = (cs, Inl (b', w')) \<Longrightarrow> err_appended b b'"
  by (auto simp: open_local_def vips_fail_def err_appended_def split: prod.splits if_splits)

lemma resample_Inl: "resample be b img w = (cs, Inl (b', w')) \<Longrightarrow> err_appended b b'"
  by (auto simp: resample_def Let_def vips_fail_def err_appended_def split: prod.splits option.splits)

lemma canvas_Inl: "canvas be b img w = (cs, Inl (b', w')) \<Longrightarrow> err_appended b b'"
  by (auto simp: canvas_def vips_fail_def err_appended_def split: prod.splits option.splits if_splits)

lemma sharpen_stage_Inl: "sharpen_stage be b img w = (cs, Inl (b', w')) \<Longrightarrow> err_appended b b'"
  by (auto simp: sharpen_stage_def vips_fail_def err_appended_def split: prod.splits option.splits)

lemma transform_Inl: "transform be b w = (cs, Inl (b', w')) \<Longrightarrow> err_appended b b'"
  unfolding transform_def
  by (auto dest!: andthen_Inl dest: decode_Inl open_local_Inl resample_Inl canvas_Inl sharpen_stage_Inl)

text \<open>Only the two buffer encoders write \<^verbatim>\<open>buffer_out_len\<close>.\<close>

lemma encode_len:
  "dst b \<noteq> ''__jpeg'' \<Longrightarrow> dst b \<noteq> ''__png'' \<Longrightarrow> encode be b img w = (cs, b', w') \<Longrightarrow>
   buffer_out_len b' = buffer_out_len b"
  by (auto simp: encode_def vips_fail_def split: prod.splits if_splits)

lemma ResizeAsync_len:
  assumes "dst b \<noteq> ''__jpeg''" "dst b \<noteq> ''__png''" "ResizeAsync be b w = (cs, b', w')"
  shows "buffer_out_len b' = buffer_out_len b"
proof (cases "transform be b w")
  case (Pair cs1 r)
  show ?thesis
  proof (cases r)
    case (Inl ret)
    with Pair assms(3) have "transform be b w = (cs1, Inl (b', w'))"
      by (cases ret) (simp add: ResizeAsync_def)
    from transform_Inl [OF this] show ?thesis by (auto simp: err_appended_def)
  next
    case (Inr y)
    with Pair assms(3) obtain img w1 cs2 where "encode be b img w1 = (cs2, b', w')"
      by (cases y) (auto simp: ResizeAsync_def split: prod.splits)
    from encode_len [OF assms(1,2) this] show ?thesis .
  qed
qed

subsection \<open>Unsupported suffixes\<close>

lemma decode_unsupported:
  assumes "\<not> EndsWith (src b) ''.jpg''" "\<not> EndsWith (src b) ''.jpeg''"
    "\<not> EndsWith (src b) ''.png''"
  shows "decode be b w =
    ([Call_image_new_mode (src b) ''p''],
     Inl (b\<lparr>err := err b @ ''Unsupported input file type''\<rparr>,
          snd (vips_image_new_mode be (src b) ''p'' w)))"
  using assms by (simp add: decode_def split: prod.splits)

lemma ResizeAsync_unsupported_input:
  assumes "\<not> EndsWith (src b) ''.jpg''" "\<not> EndsWith (src b) ''.jpeg''"
    "\<not> EndsWith (src b) ''.png''"
  shows "ResizeAsync be b w =
    ([Call_image_new_mode (src b) ''p''],
     b\<lparr>err := err b @ ''Unsupported input file type''\<rparr>,
     snd (vips_image_new_mode be (src b) ''p'' w))"
  by (simp add: ResizeAsync_def transform_def decode_unsupported [OF assms] andthen_Inl_eq)

lemma encode_unsupported:
  assumes "dst b \<noteq> ''__jpeg''" "dst b \<noteq> ''__png''" "\<not> EndsWith (dst b) ''.jpg''"
    "\<not> EndsWith (dst b) ''.jpeg''" "\<not> EndsWith (dst b) ''.png''"
  shows "encode be b img w = ([], b\<lparr>err := err b @ ''Unsupported output file type''\<rparr>, w)"
  using assms by (simp add: encode_def)

lemma resize_unsupported_input:
  assumes "\<not> EndsWith (arg_src a) ''.jpg''" "\<not> EndsWith (arg_src a) ''.jpeg''"
    "\<not> EndsWith (arg_src a) ''.png''"
  shows "resize be raw a w =
        ([(Some ''Unsupported input file type'', None)],
         [Call_image_new_mode (arg_src a) ''p''],
         snd (vips_image_new_mode be (arg_src a) ''p'' w))"
proof -
  have "ResizeAsync be (Resize raw a) w =
    ([Call_image_new_mode (arg_src a) ''p''],
     (Resize raw a)\<lparr>err := ''Unsupported input file type''\<rparr>,
     snd (vips_image_new_mode be (arg_src a) ''p'' w))"
    using ResizeAsync_unsupported_input [of "Resize raw a" be w] assms
    by (simp add: Resize_fields)
  then show ?thesis
    by (simp add: resize_def ResizeAsyncAfter_def Let_def)
qed

lemma resize_unsupported_output:
  assumes "arg_dst a \<noteq> ''__jpeg''" "arg_dst a \<noteq> ''__png''" "\<not> EndsWith (arg_dst a) ''.jpg''"
    "\<not> EndsWith (arg_dst a) ''.jpeg''" "\<not> EndsWith (arg_dst a) ''.png''"
    "transform be (Resize raw a) w = (cs, Inr (img, w'))"
  shows "resize be raw a w = ([(Some ''Unsupported output file type'', None)], cs, w')"
proof -
  have "encode be (Resize raw a) img w' =
    ([], (Resize raw a)\<lparr>err := ''Unsupported output file type''\<rparr>, w')"
    using encode_unsupported [of "Resize raw a" be img w'] assms(1-5)
    by (simp add: Resize_fields)
  with assms(6) have "ResizeAsync be (Resize raw a) w =
    (cs, (Resize raw a)\<lparr>err := ''Unsupported output file type''\<rparr>, w')"
    by (simp add: ResizeAsync_def)
  then show ?thesis
    by (simp add: resize_def ResizeAsyncAfter_def Let_def)
qed

subsection \<open>The calls of each stage\<close>

text \<open>No stage before the encoding calls an encoder, and the encoding calls nothing else.\<close>

lemma decode_no_encode: "c \<in> set (fst (decode be b w)) \<Longrightarrow> \<not> is_encode c"
  by (auto simp: decode_def split: prod.splits option.splits if_splits)

lemma open_local_no_encode: "c \<in> set (fst (open_local be b img w)) \<Longrightarrow> \<not> is_encode c"
  by (auto simp: open_local_def split: prod.splits)

lemma resample_no_encode: "c \<in> set (fst (resample be b img w)) \<Longrightarrow> \<not> is_encode c"
  by (auto simp: resample_def Let_def split: prod.splits option.splits)

lemma canvas_no_encode: "c \<in> set (fst (canvas be b img w)) \<Longrightarrow> \<not> is_encode c"
  by (auto simp: canvas_def split: prod.splits option.splits if_splits)

lemma sharpen_stage_no_encode: "c \<in> set (fst (sharpen_stage be b img w)) \<Longrightarrow> \<not> is_encode c"
  by (auto simp: sharpen_stage_def split: prod.splits option.splits)

lemma transform_no_encode: "c \<in> set (fst (transform be b w)) \<Longrightarrow> \<not> is_encode c"
  unfolding transform_def
  by (auto dest!: andthen_calls
      dest: decode_no_encode open_local_no_encode resample_no_encode canvas_no_encode
        sharpen_stage_no_encode)

lemma encode_calls: "c \<in> set (fst (encode be b img w)) \<Longrightarrow> is_encode c"
  by (auto simp: encode_def split: prod.splits if_splits)

lemma encode_calls_shape:
  "fst (encode be b img w) = [] \<or> (\<exists>c. fst (encode be b img w) = [c] \<and> is_encode c)"
  by (auto simp: encode_def split: prod.splits)

lemma transform_Inl_calls:
  "transform be b w = (cs1, Inl ret) \<Longrightarrow> fst (ResizeAsync be b w) = cs1"
  by (cases ret) (simp add: ResizeAsync_def)

lemma ResizeAsync_calls:
  assumes "c \<in> set (fst (ResizeAsync be b w))"
  shows "c \<in> set (fst (transform be b w)) \<or> is_encode c"
proof (cases "transform be b w")
  case (Pair cs1 r)
  show ?thesis
  proof (cases r)
    case (Inl ret)
    with Pair assms show ?thesis by (cases ret) (simp add: ResizeAsync_def)
  next
    case (Inr y)
    obtain img w1 where y: "y = (img, w1)" by (cases y)
    obtain cs2 b' w2 where e: "encode be b img w1 = (cs2, b', w2)"
      by (cases "encode be b img w1")
    with Pair Inr y assms have "c \<in> set cs1 \<or> c \<in> set cs2"
      by (simp add: ResizeAsync_def)
    with Pair e encode_calls [of c be b img w1] show ?thesis by auto
  qed
qed

lemma resize_calls: "fst (snd (resize be raw a w)) = fst (ResizeAsync be (Resize raw a) w)"
  by (simp add: resize_def split: prod.splits)

text \<open>Where an extraction, an embedding or a shrink occurs among the calls of a stage.\<close>

lemma decode_calls:
  "Call_extract_area img l t wd ht \<notin> set (fst (decode be b w))"
  "Call_embed img e l t wd ht \<notin> set (fst (decode be b w))"
  "Call_shrink img s s' \<notin> set (fst (decode be b w))"
  by (auto simp: decode_def split: prod.splits option.splits if_splits)

lemma open_local_calls:
  "Call_extract_area img l t wd ht \<notin> set (fst (open_local be b i w))"
  "Call_embed img e l t wd ht \<notin> set (fst (open_local be b i w))"
  "Call_shrink img s s' \<notin> set (fst (open_local be b i w))"
  by (auto simp: open_local_def split: prod.splits)

lemma resample_calls:
  "Call_extract_area img l t wd ht \<notin> set (fst (resample be b i w))"
  "Call_embed img e l t wd ht \<notin> set (fst (resample be b i w))"
  "Call_shrink img s s' \<in> set (fst (resample be b i w)) \<Longrightarrow>
     s = shrink (plan (Xsize be img) (Ysize be img) (cols b) (rows b) (crop b)) \<and> s' = s"
  by (auto simp: resample_def Let_def split: prod.splits option.splits)

lemma canvas_calls:
  "Call_extract_area img l t wd ht \<in> set (fst (canvas be b i w)) \<Longrightarrow>
     crop b \<and> (l, t, wd, ht) = crop_area (Xsize be img) (Ysize be img) (cols b) (rows b)"
  "Call_embed img e l t wd ht \<in> set (fst (canvas be b i w)) \<Longrightarrow>
     \<not> crop b \<and> e = embed b \<and>
     (l, t, wd, ht) = embed_area (Xsize be img) (Ysize be img) (cols b) (rows b)"
  "Call_shrink img s s' \<notin> set (fst (canvas be b i w))"
  by (auto simp: canvas_def split: prod.splits option.splits if_splits)

lemma sharpen_stage_calls:
  "Call_extract_area img l t wd ht \<notin> set (fst (sharpen_stage be b i w))"
  "Call_embed img e l t wd ht \<notin> set (fst (sharpen_stage be b i w))"
  "Call_shrink img s s' \<notin> set (fst (sharpen_stage be b i w))"
  by (auto simp: sharpen_stage_def split: prod.splits option.splits)

lemma transform_extract:
  assumes "Call_extract_area img l t wd ht \<in> set (fst (transform be b w))"
  shows "crop b \<and> (l, t, wd, ht) = crop_area (Xsize be img) (Ysize be img) (cols b) (rows b)"
  using assms unfolding transform_def
  by (auto dest!: andthen_calls
      simp: decode_calls open_local_calls resample_calls sharpen_stage_calls
      dest: canvas_calls(1))

lemma transform_embed:
  assumes "Call_embed img e l t wd ht \<in> set (fst (transform be b w))"
  shows "\<not> crop b \<and> e = embed b \<and>
     (l, t, wd, ht) = embed_area (Xsize be img) (Ysize be img) (cols b) (rows b)"
  using assms unfolding transform_def
  by (auto dest!: andthen_calls
      simp: decode_calls open_local_calls resample_calls sharpen_stage_calls
      dest: canvas_calls(2))

lemma transform_shrink:
  assumes "Call_shrink img s s' \<in> set (fst (transform be b w))"
  shows "s = shrink (plan (Xsize be img) (Ysize be img) (cols b) (rows b) (crop b)) \<and> s' = s"
  using assms unfolding transform_def
  by (auto dest!: andthen_calls
      simp: decode_calls open_local_calls canvas_calls sharpen_stage_calls
      dest: resample_calls(3))

lemma resize_extract:
  assumes "Call_extract_area img l t wd ht \<in> set (fst (snd (resize be raw a w)))"
  shows "(l, t, wd, ht) = crop_area (Xsize be img) (Ysize be img) (arg_cols a) (arg_rows a)"
proof -
  from assms have "Call_extract_area img l t wd ht \<in> set (fst (transform be (Resize raw a) w))"
    using ResizeAsync_calls [of "Call_extract_area img l t wd ht" be "Resize raw a" w]
    by (simp add: resize_calls)
  from transform_extract [OF this] show ?thesis by (simp add: Resize_fields)
qed

lemma resize_embed:
  assumes "Call_embed img e l t wd ht \<in> set (fst (snd (resize be raw a w)))"
  shows "(l, t, wd, ht) = embed_area (Xsize be img) (Ysize be img) (arg_cols a) (arg_rows a)"
proof -
  from assms have "Call_embed img e l t wd ht \<in> set (fst (transform be (Resize raw a) w))"
    using ResizeAsync_calls [of "Call_embed img e l t wd ht" be "Resize raw a" w]
    by (simp add: resize_calls)
  from transform_embed [OF this] show ?thesis by (simp add: Resize_fields)
qed

lemma resize_shrink:
  assumes "Call_shrink img s s' \<in> set (fst (snd (resize be raw a w)))"
  shows "s = shrink (plan (Xsize be img) (Ysize be img) (arg_cols a) (arg_rows a)
           (crop (Resize raw a))) \<and> s' = s"
proof -
  from assms have "Call_shrink img s s' \<in> set (fst (transform be (Resize raw a) w))"
    using ResizeAsync_calls [of "Call_shrink img s s'" be "Resize raw a" w]
    by (simp add: resize_calls)
  from transform_shrink [OF this] show ?thesis by (simp add: Resize_fields)
qed

lemma canvas_calls_eq:
  "fst (canvas be b img w) =
     (if crop b
      then (case crop_area (Xsize be img) (Ysize be img) (cols b) (rows b) of
              (l, t, wd, ht) \<Rightarrow> [Call_extract_area img l t wd ht])
      else (case embed_area (Xsize be img) (Ysize be img) (cols b) (rows b) of
              (l, t, wd, ht) \<Rightarrow> [Call_embed img (embed b) l t wd ht]))"
  by (auto simp: canvas_def split: prod.splits option.splits)

lemma plan_clamped: "plan xs ys c r cr = plan xs ys (max c 1) (max r 1) cr"
  by (simp add: plan_def)

text \<open>The loader and the encoder chosen by a supported suffix.\<close>

lemma decode_jpeg_calls:
  assumes "EndsWith (src b) ''.jpg'' \<or> EndsWith (src b) ''.jpeg''"
  shows "fst (decode be b w) = [Call_image_new_mode (src b) ''p'', Call_jpegload (src b)]"
  using assms by (auto simp: decode_def split: prod.splits option.splits)

lemma decode_png_calls:
  assumes "\<not> EndsWith (src b) ''.jpg''" "\<not> EndsWith (src b) ''.jpeg''" "EndsWith (src b) ''.png''"
  shows "fst (decode be b w) = [Call_image_new_mode (src b) ''p'', Call_pngload (src b)]"
  using assms by (auto simp: decode_def split: prod.splits option.splits)

lemma encode_jpeg_calls:
  assumes "dst b \<noteq> ''__jpeg''" "dst b \<noteq> ''__png''"
    "EndsWith (dst b) ''.jpg'' \<or> EndsWith (dst b) ''.jpeg''"
  shows "fst (encode be b img w) = [Call_foreign_save img (dst b) jpeg_options]"
  using assms by (auto simp: encode_def split: prod.splits)

lemma encode_png_calls:
  assumes "dst b \<noteq> ''__jpeg''" "dst b \<noteq> ''__png''"
    "\<not> EndsWith (dst b) ''.jpg''" "\<not> EndsWith (dst b) ''.jpeg''" "EndsWith (dst b) ''.png''"
  shows "fst (encode be b img w) = [Call_foreign_save img (dst b) png_options]"
  using assms by (auto simp: encode_def split: prod.splits)

subsection \<open>Runs that reach the encoder\<close>

text \<open>
  What a stage that goes on has done: the call it has made, and the library result that it
  hands to the next stage.
\<close>

lemma open_local_Inr:
  assumes "open_local be b img w = (cs, Inr (img', w'))"
  shows "cs = [Call_open_local_array img] \<and> img' = img \<and>
         im_open_local_array be img 4 ''temp'' ''p'' w = (0, w')"
  using assms by (auto simp: open_local_def split: prod.splits if_splits)

lemma resample_Inr:
  assumes "resample be b img w = (cs, Inr (t1, w'))"
  shows "\<exists>t0 w0.
           cs = [Call_shrink img
                   (shrink (plan (Xsize be img) (Ysize be img) (cols b) (rows b) (crop b)))
                   (shrink (plan (Xsize be img) (Ysize be img) (cols b) (rows b) (crop b))),
                 Call_affinei_all t0 bilinear_static
                   (residual (plan (Xsize be img) (Ysize be img) (cols b) (rows b) (crop b))) 0 0
                   (residual (plan (Xsize be img) (Ysize be img) (cols b) (rows b) (crop b))) 0 0]
           \<and>
           im_shrink be img
             (shrink (plan (Xsize be img) (Ysize be img) (cols b) (rows b) (crop b)))
             (shrink (plan (Xsize be img) (Ysize be img) (cols b) (rows b) (crop b))) w =
             (Some t0, w0) \<and>
           im_affinei_all be t0 bilinear_static
             (residual (plan (Xsize be img) (Ysize be img) (cols b) (rows b) (crop b))) 0 0
             (residual (plan (Xsize be img) (Ysize be img) (cols b) (rows b) (crop b))) 0 0 w0 =
             (Some t1, w')"
  using assms by (auto simp: resample_def Let_def split: prod.splits option.splits)

lemma canvas_Inr:
  assumes "canvas be b t1 w = (cs, Inr (t2, w'))"
  shows "(crop b \<and>
          (\<exists>l t wd ht.
             crop_area (Xsize be t1) (Ysize be t1) (cols b) (rows b) = (l, t, wd, ht) \<and>
             cs = [Call_extract_area t1 l t wd ht] \<and>
             im_extract_area be t1 l t wd ht w = (Some t2, w'))) \<or>
         (\<not> crop b \<and>
          (\<exists>l t wd ht.
             embed_area (Xsize be t1) (Ysize be t1) (cols b) (rows b) = (l, t, wd, ht) \<and>
             cs = [Call_embed t1 (embed b) l t wd ht] \<and>
             im_embed be t1 (embed b) l t wd ht w = (Some t2, w')))"
  using assms by (auto simp: canvas_def split: prod.splits option.splits if_splits)

lemma sharpen_stage_Inr:
  assumes "sharpen_stage be b t2 w = (cs, Inr (t3, w'))"
  shows "cs = [Call_conv t2 sharpen] \<and> im_conv be t2 sharpen w = (Some t3, w')"
  using assms by (auto simp: sharpen_stage_def split: prod.splits option.splits)

text \<open>
  A run of lines 51-132 that reaches line 134 has passed the five stages in order, each on
  the image and in the library state that the stage before has left.
\<close>

lemma transform_Inr_stages:
  assumes "transform be b w = (cs, Inr (t3, w'))"
  shows "\<exists>cs0 img w0 w1 cs2 t1 w2 cs3 t2 w3.
           decode be b w = (cs0, Inr (img, w0)) \<and>
           im_open_local_array be img 4 ''temp'' ''p'' w0 = (0, w1) \<and>
           resample be b img w1 = (cs2, Inr (t1, w2)) \<and>
           canvas be b t1 w2 = (cs3, Inr (t2, w3)) \<and>
           im_conv be t2 sharpen w3 = (Some t3, w') \<and>
           cs = cs0 @ Call_open_local_array img # cs2 @ cs3 @ [Call_conv t2 sharpen]"
proof -
  from assms obtain c4 t2 w3 c5 where
    a4: "andthen (andthen (andthen (decode be b w) (open_local be b)) (resample be b))
          (canvas be b) = (c4, Inr (t2, w3))"
    and s: "sharpen_stage be b t2 w3 = (c5, Inr (t3, w'))" and cs: "cs = c4 @ c5"
    unfolding transform_def by (blast dest: andthen_Inr)
  from a4 obtain c3 t1 w2 cs3 where
    a3: "andthen (andthen (decode be b w) (open_local be b)) (resample be b) =
          (c3, Inr (t1, w2))"
    and c: "canvas be b t1 w2 = (cs3, Inr (t2, w3))" and c4: "c4 = c3 @ cs3"
    by (blast dest: andthen_Inr)
  from a3 obtain c2 img' w1 cs2 where
    a2: "andthen (decode be b w) (open_local be b) = (c2, Inr (img', w1))"
    and r: "resample be b img' w1 = (cs2, Inr (t1, w2))" and c3: "c3 = c2 @ cs2"
    by (blast dest: andthen_Inr)
  from a2 obtain cs0 img w0 cs1 where
    d: "decode be b w = (cs0, Inr (img, w0))"
    and ol: "open_local be b img w0 = (cs1, Inr (img', w1))" and c2: "c2 = cs0 @ cs1"
    by (blast dest: andthen_Inr)
  from open_local_Inr [OF ol] have o: "cs1 = [Call_open_local_array img]" "img' = img"
    "im_open_local_array be img 4 ''temp'' ''p'' w0 = (0, w1)" by simp_all
  from sharpen_stage_Inr [OF s] have sh: "c5 = [Call_conv t2 sharpen]"
    "im_conv be t2 sharpen w3 = (Some t3, w')" by simp_all
  have "cs = cs0 @ Call_open_local_array img # cs2 @ cs3 @ [Call_conv t2 sharpen]"
    using cs c4 c3 c2 o(1) sh(1) by simp
  with d o(3) r [unfolded o(2)] c sh(2) show ?thesis by blast
qed

text \<open>The worker then encodes the image that the last stage has produced.\<close>

lemma ResizeAsync_Inr_run:
  assumes "transform be b w = (cs1, Inr (img, w1))"
  shows "\<exists>ecs b' w'. encode be b img w1 = (ecs, b', w') \<and>
           ResizeAsync be b w = (cs1 @ ecs, b', w')"
  using assms by (cases "encode be b img w1") (simp add: ResizeAsync_def)

lemma encode_one:
  assumes "encode be b img w = ([enc], b', w')"
  shows "enc \<in> {Call_jpegsave_buffer img jpeg_options, Call_pngsave_buffer img png_options,
                 Call_foreign_save img (dst b) jpeg_options,
                 Call_foreign_save img (dst b) png_options}"
  using assms by (auto simp: encode_def split: prod.splits if_splits)

subsection \<open>A library that reports its errors\<close>

lemma reports_errorsD:
  assumes "reports_errors be"
  shows "vips_jpegload be name p w = (None, w') \<Longrightarrow> vips_error_buffer be w' \<noteq> []"
    and "vips_pngload be name p w = (None, w') \<Longrightarrow> vips_error_buffer be w' \<noteq> []"
    and "im_open_local_array be img n nm md w = (rc, w') \<Longrightarrow> rc \<noteq> 0 \<Longrightarrow>
         vips_error_buffer be w' \<noteq> []"
    and "im_shrink be img xs ys w = (None, w') \<Longrightarrow> vips_error_buffer be w' \<noteq> []"
    and "im_affinei_all be img i a b c d dx dy w = (None, w') \<Longrightarrow> vips_error_buffer be w' \<noteq> []"
    and "im_extract_area be img l t wd ht w = (None, w') \<Longrightarrow> vips_error_buffer be w' \<noteq> []"
    and "im_embed be img e l t wd ht w = (None, w') \<Longrightarrow> vips_error_buffer be w' \<noteq> []"
    and "im_conv be img m w = (None, w') \<Longrightarrow> vips_error_buffer be w' \<noteq> []"
    and "vips_jpegsave_buffer be img os w = ((rc, buf, len), w') \<Longrightarrow> rc \<noteq> 0 \<Longrightarrow>
         vips_error_buffer be w' \<noteq> []"
    and "vips_pngsave_buffer be img os w = ((rc, buf, len), w') \<Longrightarrow> rc \<noteq> 0 \<Longrightarrow>
         vips_error_buffer be w' \<noteq> []"
    and "vips_foreign_save be img name os w = (rc, w') \<Longrightarrow> rc \<noteq> 0 \<Longrightarrow>
         vips_error_buffer be w' \<noteq> []"
proof -
  note r = assms [unfolded reports_errors_def]
  show "vips_jpegload be name p w = (None, w') \<Longrightarrow> vips_error_buffer be w' \<noteq> []"
    by (rule r [THEN conjunct1, rule_format])
  show "vips_pngload be name p w = (None, w') \<Longrightarrow> vips_error_buffer be w' \<noteq> []"
    by (rule r [THEN conjunct2, THEN conjunct1, rule_format])
  show "im_open_local_array be img n nm md w = (rc, w') \<Longrightarrow> rc \<noteq> 0 \<Longrightarrow>
         vips_error_buffer be w' \<noteq> []"
    by (rule r [THEN conjunct2, THEN conjunct2, THEN conjunct1, rule_format])
  show "im_shrink be img xs ys w = (None, w') \<Longrightarrow> vips_error_buffer be w' \<noteq> []"
    by (rule r [THEN conjunct2, THEN conjunct2, THEN conjunct2, THEN conjunct1, rule_format])
  show "im_affinei_all be img i a b c d dx dy w = (None, w') \<Longrightarrow> vips_error_buffer be w' \<noteq> []"
    by (rule r [THEN conjunct2, THEN conjunct2, THEN conjunct2, THEN conjunct2, THEN conjunct1, rule_format])
  show "im_extract_area be img l t wd ht w = (None, w') \<Longrightarrow> vips_error_buffer be w' \<noteq> []"
    by (rule r [THEN conjunct2, THEN conjunct2, THEN conjunct2, THEN conjunct2, THEN conjunct2, THEN conjunct1, rule_format])
  show "im_embed be img e l t wd ht w = (None, w') \<Longrightarrow> vips_error_buffer be w' \<noteq> []"
    by (rule r [THEN conjunct2, THEN conjunct2, THEN conjunct2, THEN conjunct2, THEN conjunct2, THEN conjunct2, THEN conjunct1, rule_format])
  show "im_conv be img m w = (None, w') \<Longrightarrow> vips_error_buffer be w' \<noteq> []"
    by (rule r [THEN conjunct2, THEN conjunct2, THEN conjunct2, THEN conjunct2, THEN conjunct2, THEN conjunct2, THEN conjunct2, THEN conjunct1, rule_format])
  show "vips_jpegsave_buffer be img os w = ((rc, buf, len), w') \<Longrightarrow> rc \<noteq> 0 \<Longrightarrow>
         vips_error_buffer be w' \<noteq> []"
    by (rule r [THEN conjunct2, THEN conjunct2, THEN conjunct2, THEN conjunct2, THEN conjunct2, THEN conjunct2, THEN conjunct2, THEN conjunct2, THEN conjunct1, rule_format])
  show "vips_pngsave_buffer be img os w = ((rc, buf, len), w') \<Longrightarrow> rc \<noteq> 0 \<Longrightarrow>
         vips_error_buffer be w' \<noteq> []"
    by (rule r [THEN conjunct2, THEN conjunct2, THEN conjunct2, THEN conjunct2, THEN conjunct2, THEN conjunct2, THEN conjunct2, THEN conjunct2, THEN conjunct2, THEN conjunct1, rule_format])
  show "vips_foreign_save be img name os w = (rc, w') \<Longrightarrow> rc \<noteq> 0 \<Longrightarrow>
         vips_error_buffer be w' \<noteq> []"
    by (rule r [THEN conjunct2, THEN conjunct2, THEN conjunct2, THEN conjunct2, THEN conjunct2, THEN conjunct2, THEN conjunct2, THEN conjunct2, THEN conjunct2, THEN conjunct2, rule_format])
qed

lemma decode_Inl_err:
  "reports_errors be \<Longrightarrow> decode be b w = (cs, Inl (b', w')) \<Longrightarrow> err b' \<noteq> []"
  by (auto simp: decode_def vips_fail_def dest: reports_errorsD(1,2)
      split: prod.splits option.splits if_splits)

lemma open_local_Inl_err:
  "reports_errors be \<Longrightarrow> open_local be b img w = (cs, Inl (b', w')) \<Longrightarrow> err b' \<noteq> []"
  by (auto simp: open_local_def vips_fail_def dest: reports_errorsD(3) split: prod.splits if_splits)

lemma resample_Inl_err:
  "reports_errors be \<Longrightarrow> resample be b img w = (cs, Inl (b', w')) \<Longrightarrow> err b' \<noteq> []"
  by (auto simp: resample_def Let_def vips_fail_def dest: reports_errorsD(4,5)
      split: prod.splits option.splits)

lemma canvas_Inl_err:
  "reports_errors be \<Longrightarrow> canvas be b img w = (cs, Inl (b', w')) \<Longrightarrow> err b' \<noteq> []"
  by (auto simp: canvas_def vips_fail_def dest: reports_errorsD(6,7)
      split: prod.splits option.splits if_splits)

lemma sharpen_stage_Inl_err:
  "reports_errors be \<Longrightarrow> sharpen_stage be b img w = (cs, Inl (b', w')) \<Longrightarrow> err b' \<noteq> []"
  by (auto simp: sharpen_stage_def vips_fail_def dest: reports_errorsD(8)
      split: prod.splits option.splits)

lemma transform_Inl_err:
  "reports_errors be \<Longrightarrow> transform be b w = (cs, Inl (b', w')) \<Longrightarrow> err b' \<noteq> []"
  unfolding transform_def
  by (auto dest!: andthen_Inl
      dest: decode_Inl_err open_local_Inl_err resample_Inl_err canvas_Inl_err
        sharpen_stage_Inl_err)

lemma encode_ok:
  assumes "reports_errors be" "err b = []" "encode be b img w = (cs, b', w')" "err b' = []"
  shows "\<exists>c. cs = [c] \<and> is_encode c"
  using assms
  by (auto simp: encode_def vips_fail_def dest: reports_errorsD(9,10,11)
      split: prod.splits if_splits)

lemma callback_no_error: "ResizeAsyncAfter b' = [(None, buf)] \<Longrightarrow> err b' = []"
  by (auto simp: ResizeAsyncAfter_def Let_def split: if_splits)

lemma transform_Inl_run: "transform be b w = (cs1, Inl ret) \<Longrightarrow> ResizeAsync be b w = (cs, b', w') \<Longrightarrow>
   transform be b w = (cs1, Inl (b', w'))"
  by (cases ret) (simp add: ResizeAsync_def)

lemma transform_Inr_run: "transform be b w = (cs1, Inr (img, w1)) \<Longrightarrow> ResizeAsync be b w = (cs, b', w') \<Longrightarrow>
   \<exists>cs2. encode be b img w1 = (cs2, b', w') \<and> cs = cs1 @ cs2"
  by (auto simp: ResizeAsync_def split: prod.splits)

text \<open>With such a library, a run that ends with an empty error string has encoded.\<close>

lemma no_error_encoded:
  assumes "reports_errors be" "err b = []" "ResizeAsync be b w = (cs, b', w')" "err b' = []"
  shows "\<exists>c\<in>set cs. is_encode c"
proof -
  obtain cs1 r where t: "transform be b w = (cs1, r)"
    by (cases "transform be b w")
  show ?thesis
  proof (cases r)
    case (Inl ret)
    from transform_Inl_run [OF t [unfolded Inl] assms(3)]
    have "transform be b w = (cs1, Inl (b', w'))" .
    from transform_Inl_err [OF assms(1) this] assms(4) show ?thesis by simp
  next
    case (Inr y)
    obtain img w1 where y: "y = (img, w1)" by (cases y)
    from transform_Inr_run [OF t [unfolded Inr y] assms(3)]
    obtain cs2 where enc: "encode be b img w1 = (cs2, b', w')"
      and cs: "cs = cs1 @ cs2" by blast
    from encode_ok [OF assms(1,2) enc assms(4)] obtain c where "cs2 = [c]" "is_encode c"
      by blast
    with cs show ?thesis by simp
  qed
qed

text \<open>
  So a callback that receives a null error follows, with such a library, a run that has
  called an encoder. Without the assumption it does not: a call that fails and leaves the
  error buffer empty makes the worker return with an empty error string.
\<close>

lemma null_error_encoded:
  assumes "reports_errors be" "resize be raw a w = ([(None, buf)], cs, w')"
  shows "\<exists>c\<in>set cs. is_encode c"
proof -
  obtain cs0 b' w0 where run0: "ResizeAsync be (Resize raw a) w = (cs0, b', w0)"
    by (cases "ResizeAsync be (Resize raw a) w")
  with assms(2) have run: "ResizeAsync be (Resize raw a) w = (cs, b', w')"
    and after: "ResizeAsyncAfter b' = [(None, buf)]"
    by (simp_all add: resize_def)
  from after have e: "err b' = []" by (rule callback_no_error)
  have "err (Resize raw a) = []" by (simp add: Resize_fields)
  from no_error_encoded [OF assms(1) this run e] show ?thesis .
qed

subsection \<open>A request that delivers a buffer\<close>

text \<open>
  Whatever the library does, a callback that receives a buffer follows a run that has
  called an encoder: only the two buffer encoders write \<^verbatim>\<open>buffer_out_len\<close>.
\<close>

lemma encode_len_calls:
  assumes "encode be b img w = (ecs, b', w')" "buffer_out_len b' \<noteq> buffer_out_len b"
  shows "\<exists>c\<in>set ecs. is_encode c"
  using assms by (auto simp: encode_def vips_fail_def split: prod.splits if_splits)

lemma ResizeAsync_len_calls:
  assumes "ResizeAsync be b w = (cs, b', w')" "buffer_out_len b' \<noteq> buffer_out_len b"
  shows "\<exists>c\<in>set cs. is_encode c"
proof -
  obtain cs1 r where t: "transform be b w = (cs1, r)"
    by (cases "transform be b w")
  show ?thesis
  proof (cases r)
    case (Inl ret)
    from transform_Inl_run [OF t [unfolded Inl] assms(1)]
    have "transform be b w = (cs1, Inl (b', w'))" .
    from transform_Inl [OF this] assms(2) show ?thesis by (auto simp: err_appended_def)
  next
    case (Inr y)
    obtain img w1 where y: "y = (img, w1)" by (cases y)
    from transform_Inr_run [OF t [unfolded Inr y] assms(1)]
    obtain cs2 where enc: "encode be b img w1 = (cs2, b', w')"
      and cs: "cs = cs1 @ cs2" by blast
    from encode_len_calls [OF enc assms(2)] cs show ?thesis by auto
  qed
qed

lemma buffer_encoded:
  assumes "resize be raw a w = ([(e, Some buf)], cs, w')"
  shows "\<exists>c\<in>set cs. is_encode c"
proof -
  obtain cs0 b' w0 where run0: "ResizeAsync be (Resize raw a) w = (cs0, b', w0)"
    by (cases "ResizeAsync be (Resize raw a) w")
  with assms have run: "ResizeAsync be (Resize raw a) w = (cs, b', w')"
    and after: "ResizeAsyncAfter b' = [(e, Some buf)]"
    by (simp_all add: resize_def)
  from after have "0 < buffer_out_len b'"
    by (auto simp: ResizeAsyncAfter_def Let_def split: if_splits)
  then have "buffer_out_len b' \<noteq> buffer_out_len (Resize raw a)"
    by (simp add: Resize_fields)
  from ResizeAsync_len_calls [OF run this] show ?thesis .
qed

subsection \<open>A library that keeps the geometry\<close>

lemma keeps_geometryD:
  assumes "keeps_geometry be"
  shows "im_extract_area be img l t wd ht w = (Some t2, w') \<Longrightarrow>
           Xsize be t2 = wd \<and> Ysize be t2 = ht"
    and "im_conv be img m w = (Some t3, w') \<Longrightarrow>
           Xsize be t3 = Xsize be img \<and> Ysize be t3 = Ysize be img"
proof -
  note k = assms [unfolded keeps_geometry_def]
  show "im_extract_area be img l t wd ht w = (Some t2, w') \<Longrightarrow>
           Xsize be t2 = wd \<and> Ysize be t2 = ht"
    by (rule k [THEN conjunct1, rule_format])
  show "im_conv be img m w = (Some t3, w') \<Longrightarrow>
           Xsize be t3 = Xsize be img \<and> Ysize be t3 = Ysize be img"
    by (rule k [THEN conjunct2, rule_format])
qed

section \<open>Runs on the reference library\<close>

lemma ref_vips_simps:
  "Xsize (ref_vips sw sh) = fst"
  "Ysize (ref_vips sw sh) = snd"
  "vips_image_new_mode (ref_vips sw sh) name mode w = (Some (1, 1), w)"
  "vips_jpegload (ref_vips sw sh) name p w =
     (if 1 \<le> sw \<and> 1 \<le> sh then (Some (sw, sh), w) else (None, w @ ''VipsJpeg: unable to open''))"
  "vips_pngload (ref_vips sw sh) name p w =
     (if 1 \<le> sw \<and> 1 \<le> sh then (Some (sw, sh), w) else (None, w @ ''vips2png: unable to open''))"
  "im_open_local_array (ref_vips sw sh) img n name mode w = (0, w)"
  "im_shrink (ref_vips sw sh) img xs ys w =
     (if 1 \<le> xs \<and> 1 \<le> ys \<and> 1 \<le> fst img sdiv xs \<and> 1 \<le> snd img sdiv ys
      then (Some (fst img sdiv xs, snd img sdiv ys), w)
      else (None, w @ ''im_shrink: image has shrunk to nothing''))"
  "im_affinei_all (ref_vips sw sh) img i a b c d dx dy w =
     (if 1 \<le> VIPS_RINT (fmul (of_int (fst img)) a) \<and>
         1 \<le> VIPS_RINT (fmul (of_int (snd img)) d)
      then (Some (VIPS_RINT (fmul (of_int (fst img)) a),
                  VIPS_RINT (fmul (of_int (snd img)) d)), w)
      else (None, w @ ''im_affinei: output coordinates out of range''))"
  "im_extract_area (ref_vips sw sh) img l t wd ht w =
     (if 0 \<le> l \<and> 0 \<le> t \<and> 1 \<le> wd \<and> 1 \<le> ht \<and> l + wd \<le> fst img \<and> t + ht \<le> snd img
      then (Some (wd, ht), w)
      else (None, w @ ''im_extract_area: bad extract area''))"
  "im_embed (ref_vips sw sh) img e l t wd ht w =
     (if 1 \<le> wd \<and> 1 \<le> ht then (Some (wd, ht), w) else (None, w @ ''im_embed: bad dimensions''))"
  "im_conv (ref_vips sw sh) img m w = (Some img, w)"
  "vips_jpegsave_buffer (ref_vips sw sh) img os w = ((0, [255, 216, 255], 3), w)"
  "vips_pngsave_buffer (ref_vips sw sh) img os w = ((0, [137, 80, 78, 71], 4), w)"
  "vips_foreign_save (ref_vips sw sh) img name os w = (0, w)"
  "vips_error_buffer (ref_vips sw sh) w = w"
  "vips_error_clear (ref_vips sw sh) w = []"
  by (simp_all add: ref_vips_def)

lemma ref_reports_errors: "reports_errors (ref_vips sw sh)"
  by (simp add: reports_errors_def ref_vips_simps)

lemma ref_keeps_geometry: "keeps_geometry (ref_vips sw sh)"
  by (auto simp: keeps_geometry_def ref_vips_simps split: if_splits)

lemma request_fields:
  "arg_src (request s d c r cv) = s" "arg_dst (request s d c r cv) = d"
  "arg_cols (request s d c r cv) = c" "arg_rows (request s d c r cv) = r"
  "arg_canvas (request s d c r cv) = cv"
  by (simp_all add: request_def)

lemma Resize_request:
  "Resize raw0 (request s d c r ''c'') =
     \<lparr>src = s, dst = d, buffer_out = [7], buffer_out_len = 0, cols = c, rows = r,
      crop = True, embed = 3, err = []\<rparr>"
  "Resize raw0 (request s d c r ''w'') =
     \<lparr>src = s, dst = d, buffer_out = [7], buffer_out_len = 0, cols = c, rows = r,
      crop = False, embed = 4, err = []\<rparr>"
  "Resize raw0 (request s d c r ''b'') =
     \<lparr>src = s, dst = d, buffer_out = [7], buffer_out_len = 0, cols = c, rows = r,
      crop = False, embed = 0, err = []\<rparr>"
  by (simp_all add: Resize_def ResizeBaton_new_def raw0_def request_def)

lemmas stage_defs = transform_def andthen_def decode_def open_local_def resample_def
  canvas_def sharpen_stage_def vips_fail_def EndsWith_def

lemmas run_defs = resize_def ResizeAsync_def encode_def ResizeAsyncAfter_def vips_fail_def
  EndsWith_def Resize_fields request_fields

text \<open>A 10 by 10 source cropped to 5 by 5.\<close>

lemma plan_10_5: "plan 10 10 5 5 True =
    \<lparr>xfactor = 2, yfactor = 2, factor = 2, shrink = 2, residual = 1\<rparr>"
  by code_simp

lemma affine_5: "VIPS_RINT (fmul 5 1) = 5"
  by code_simp

lemma crop_5: "crop_area 5 5 5 5 = (0, 0, 5, 5)"
  by code_simp

lemma transform_10_5:
  "transform (ref_vips 10 10) (Resize raw0 (request ''in.png'' d 5 5 ''c'')) [] =
     ([Call_image_new_mode ''in.png'' ''p'', Call_pngload ''in.png'',
       Call_open_local_array (10, 10), Call_shrink (10, 10) 2 2,
       Call_affinei_all (5, 5) bilinear_static 1 0 0 1 0 0,
       Call_extract_area (5, 5) 0 0 5 5, Call_conv (5, 5) sharpen],
      Inr ((5, 5), []))"
  by (simp add: stage_defs Resize_request ref_vips_simps plan_10_5 affine_5 crop_5
      signed_divide_int_def)

lemma run_10_5_png:
  "resize (ref_vips 10 10) raw0 (request ''in.png'' ''__png'' 5 5 ''c'') [] =
     ([(None, Some [137, 80, 78, 71])],
      [Call_image_new_mode ''in.png'' ''p'', Call_pngload ''in.png'',
       Call_open_local_array (10, 10), Call_shrink (10, 10) 2 2,
       Call_affinei_all (5, 5) bilinear_static 1 0 0 1 0 0,
       Call_extract_area (5, 5) 0 0 5 5, Call_conv (5, 5) sharpen,
       Call_pngsave_buffer (5, 5) png_options], [])"
  by (simp add: run_defs transform_10_5 ref_vips_simps)

lemma run_10_5_JPG:
  "resize (ref_vips 10 10) raw0 (request ''in.png'' ''out.JPG'' 5 5 ''c'') [] =
     ([(Some ''Unsupported output file type'', None)],
      [Call_image_new_mode ''in.png'' ''p'', Call_pngload ''in.png'',
       Call_open_local_array (10, 10), Call_shrink (10, 10) 2 2,
       Call_affinei_all (5, 5) bilinear_static 1 0 0 1 0 0,
       Call_extract_area (5, 5) 0 0 5 5, Call_conv (5, 5) sharpen], [])"
  by (simp add: run_defs transform_10_5 ref_vips_simps)

text \<open>An 11 by 11 source cropped to 3 by 3.\<close>

lemma plan_11_3: "plan 11 11 3 3 True =
    \<lparr>xfactor = 8256599316845909 / 2251799813685248,
     yfactor = 8256599316845909 / 2251799813685248,
     factor = 8256599316845909 / 2251799813685248, shrink = 3,
     residual = 7369526662969903 / 9007199254740992\<rparr>"
  by code_simp

lemma affine_3: "VIPS_RINT (fmul 3 (7369526662969903 / 9007199254740992)) = 2"
  by code_simp

lemma crop_2_3: "crop_area 2 2 3 3 = (0, 0, 2, 2)"
  by code_simp

lemma transform_11_3:
  "transform (ref_vips 11 11) (Resize raw0 (request ''in.jpg'' d 3 3 ''c'')) [] =
     ([Call_image_new_mode ''in.jpg'' ''p'', Call_jpegload ''in.jpg'',
       Call_open_local_array (11, 11), Call_shrink (11, 11) 3 3,
       Call_affinei_all (3, 3) bilinear_static (7369526662969903 / 9007199254740992) 0 0
         (7369526662969903 / 9007199254740992) 0 0,
       Call_extract_area (2, 2) 0 0 2 2, Call_conv (2, 2) sharpen],
      Inr ((2, 2), []))"
  by (simp add: stage_defs Resize_request ref_vips_simps plan_11_3 affine_3 crop_2_3
      signed_divide_int_def)

lemma run_11_3:
  "resize (ref_vips 11 11) raw0 (request ''in.jpg'' ''__jpeg'' 3 3 ''c'') [] =
     ([(None, Some [255, 216, 255])],
      [Call_image_new_mode ''in.jpg'' ''p'', Call_jpegload ''in.jpg'',
       Call_open_local_array (11, 11), Call_shrink (11, 11) 3 3,
       Call_affinei_all (3, 3) bilinear_static (7369526662969903 / 9007199254740992) 0 0
         (7369526662969903 / 9007199254740992) 0 0,
       Call_extract_area (2, 2) 0 0 2 2, Call_conv (2, 2) sharpen,
       Call_jpegsave_buffer (2, 2) jpeg_options], [])"
  by (simp add: run_defs transform_11_3 ref_vips_simps)

text \<open>A 10 by 10 source with a target of 0 by 0.\<close>

lemma plan_10_0:
  "plan 10 10 0 0 True =
     \<lparr>xfactor = 10, yfactor = 10, factor = 10, shrink = 10, residual = 1\<rparr>"
  "plan 10 10 0 0 False =
     \<lparr>xfactor = 10, yfactor = 10, factor = 10, shrink = 10, residual = 1\<rparr>"
  by code_simp+

lemma plan_10_1:
  "plan 10 10 1 1 False =
     \<lparr>xfactor = 10, yfactor = 10, factor = 10, shrink = 10, residual = 1\<rparr>"
  by code_simp

lemma affine_1: "VIPS_RINT (fmul 1 1) = 1"
  by code_simp

lemma run_10_0_embed:
  "resize (ref_vips 10 10) raw0 (request ''in.jpg'' ''out.png'' 0 0 ''w'') [] =
     ([(Some ''im_embed: bad dimensions'', None)],
      [Call_image_new_mode ''in.jpg'' ''p'', Call_jpegload ''in.jpg'',
       Call_open_local_array (10, 10), Call_shrink (10, 10) 10 10,
       Call_affinei_all (1, 1) bilinear_static 1 0 0 1 0 0,
       Call_embed (1, 1) 4 0 0 0 0], [])"
  by (simp add: resize_def ResizeAsync_def ResizeAsyncAfter_def stage_defs Resize_request
      ref_vips_simps plan_10_0 affine_1 embed_area_def signed_divide_int_def)

lemma run_10_0_crop:
  "resize (ref_vips 10 10) raw0 (request ''in.jpg'' ''out.png'' 0 0 ''c'') [] =
     ([(Some ''im_extract_area: bad extract area'', None)],
      [Call_image_new_mode ''in.jpg'' ''p'', Call_jpegload ''in.jpg'',
       Call_open_local_array (10, 10), Call_shrink (10, 10) 10 10,
       Call_affinei_all (1, 1) bilinear_static 1 0 0 1 0 0,
       Call_extract_area (1, 1) 1 1 0 0], [])"
  by (simp add: resize_def ResizeAsync_def ResizeAsyncAfter_def stage_defs Resize_request
      ref_vips_simps plan_10_0 affine_1 crop_area_def signed_divide_int_def)

section \<open>The completion callback\<close>

text \<open>
  Claim C1. For every request, whatever the library does, the callback is called exactly
  once, and its two arguments are either a non-empty error string and null, or null and a
  buffer; the buffer is null unless the destination is \<^verbatim>\<open>__jpeg\<close> or \<^verbatim>\<open>__png\<close>, so for
  a file destination both arguments of a call without error are null.
\<close>

theorem callback_once:
  "\<exists>e buf. fst (resize be raw args w) = [(e, buf)] \<and>
     ((\<exists>m. e = Some m \<and> m \<noteq> [] \<and> buf = None) \<or>
      (e = None \<and> (buf = None \<or> arg_dst args = ''__jpeg'' \<or> arg_dst args = ''__png'')))"
proof (cases "ResizeAsync be (Resize raw args) w")
  case (fields cs b' w')
  have len: "buffer_out_len b' = 0"
    if "arg_dst args \<noteq> ''__jpeg''" "arg_dst args \<noteq> ''__png''"
    using ResizeAsync_len [OF _ _ fields] that by (simp add: Resize_fields)
  show ?thesis
  proof (cases "err b' = []")
    case False
    with fields show ?thesis by (simp add: resize_def ResizeAsyncAfter_def Let_def)
  next
    case True
    with fields len show ?thesis
      by (cases "arg_dst args = ''__jpeg'' \<or> arg_dst args = ''__png''")
        (auto simp: resize_def ResizeAsyncAfter_def Let_def)
  qed
qed

section \<open>The size of a cropped output\<close>

text \<open>
  Claim C2, amended. Under the crop policy, a run that reaches the encoder has decoded the
  source into \<open>img\<close>, shrunk it by the planned integer factor into \<open>t0\<close>, resampled \<open>t0\<close>
  with the planned residual into \<open>t1\<close>, extracted from the resampled image \<open>t1\<close> an area
  into \<open>t2\<close>, sharpened \<open>t2\<close> into \<open>out\<close>, and handed \<open>out\<close> to the encoder; each library
  call works on the result of the call before. The area asked for has the smaller of the
  width of \<open>t1\<close> and the target width, and the smaller of the height of \<open>t1\<close> and the target
  height; it has the target size if and only if the resampled image is at least as large
  as the target in both dimensions. When the library keeps the geometry, the size of the
  area is the size of the output. How large the resampled image is, is decided by the
  rounding of the two library operations.
\<close>

theorem crop_output_size:
  assumes "arg_canvas a = ''c''"
    and "transform be (Resize raw a) w = (cs, Inr (out, w'))"
  shows "\<exists>cs0 img w0 w1 s r t0 w2 t1 w3 l t wd ht t2 w4.
      decode be (Resize raw a) w = (cs0, Inr (img, w0)) \<and>
      im_open_local_array be img 4 ''temp'' ''p'' w0 = (0, w1) \<and>
      s = shrink (plan (Xsize be img) (Ysize be img) (arg_cols a) (arg_rows a) True) \<and>
      r = residual (plan (Xsize be img) (Ysize be img) (arg_cols a) (arg_rows a) True) \<and>
      im_shrink be img s s w1 = (Some t0, w2) \<and>
      im_affinei_all be t0 bilinear_static r 0 0 r 0 0 w2 = (Some t1, w3) \<and>
      crop_area (Xsize be t1) (Ysize be t1) (arg_cols a) (arg_rows a) = (l, t, wd, ht) \<and>
      wd = min (Xsize be t1) (arg_cols a) \<and> ht = min (Ysize be t1) (arg_rows a) \<and>
      im_extract_area be t1 l t wd ht w3 = (Some t2, w4) \<and>
      im_conv be t2 sharpen w4 = (Some out, w') \<and>
      cs = cs0 @ [Call_open_local_array img, Call_shrink img s s,
                  Call_affinei_all t0 bilinear_static r 0 0 r 0 0,
                  Call_extract_area t1 l t wd ht, Call_conv t2 sharpen] \<and>
      (wd = arg_cols a \<and> ht = arg_rows a \<longleftrightarrow>
         arg_cols a \<le> Xsize be t1 \<and> arg_rows a \<le> Ysize be t1) \<and>
      (keeps_geometry be \<longrightarrow> Xsize be out = wd \<and> Ysize be out = ht) \<and>
      (\<exists>ecs b' w''. encode be (Resize raw a) out w' = (ecs, b', w'') \<and>
         resize be raw a w = (ResizeAsyncAfter b', cs @ ecs, w''))"
proof -
  let ?b = "Resize raw a"
  have cr: "crop ?b" using assms(1) by (simp add: Resize_def Let_def)
  from transform_Inr_stages [OF assms(2)] obtain cs0 img w0 w1 cs2 t1 w3 cs3 t2 w4 where
    d: "decode be ?b w = (cs0, Inr (img, w0))"
    and ol: "im_open_local_array be img 4 ''temp'' ''p'' w0 = (0, w1)"
    and rs: "resample be ?b img w1 = (cs2, Inr (t1, w3))"
    and cv: "canvas be ?b t1 w3 = (cs3, Inr (t2, w4))"
    and sh: "im_conv be t2 sharpen w4 = (Some out, w')"
    and cs: "cs = cs0 @ Call_open_local_array img # cs2 @ cs3 @ [Call_conv t2 sharpen]"
    by blast
  define s where
    "s = shrink (plan (Xsize be img) (Ysize be img) (arg_cols a) (arg_rows a) True)"
  define r where
    "r = residual (plan (Xsize be img) (Ysize be img) (arg_cols a) (arg_rows a) True)"
  from resample_Inr [OF rs] cr obtain t0 w2 where
    cs2: "cs2 = [Call_shrink img s s, Call_affinei_all t0 bilinear_static r 0 0 r 0 0]"
    and s1: "im_shrink be img s s w1 = (Some t0, w2)"
    and s2: "im_affinei_all be t0 bilinear_static r 0 0 r 0 0 w2 = (Some t1, w3)"
    by (auto simp: Resize_fields s_def r_def)
  from canvas_Inr [OF cv] cr obtain l t wd ht where
    ca: "crop_area (Xsize be t1) (Ysize be t1) (arg_cols a) (arg_rows a) = (l, t, wd, ht)"
    and cs3: "cs3 = [Call_extract_area t1 l t wd ht]"
    and ex: "im_extract_area be t1 l t wd ht w3 = (Some t2, w4)"
    by (auto simp: Resize_fields)
  from ca have wd: "wd = min (Xsize be t1) (arg_cols a)" "ht = min (Ysize be t1) (arg_rows a)"
    by (auto simp: crop_area_def Let_def)
  then have iff: "wd = arg_cols a \<and> ht = arg_rows a \<longleftrightarrow>
         arg_cols a \<le> Xsize be t1 \<and> arg_rows a \<le> Ysize be t1"
    by auto
  have o: "keeps_geometry be \<longrightarrow> Xsize be out = wd \<and> Ysize be out = ht"
  proof
    assume k: "keeps_geometry be"
    from keeps_geometryD(1) [OF k ex] keeps_geometryD(2) [OF k sh]
    show "Xsize be out = wd \<and> Ysize be out = ht" by simp
  qed
  have cs': "cs = cs0 @ [Call_open_local_array img, Call_shrink img s s,
                  Call_affinei_all t0 bilinear_static r 0 0 r 0 0,
                  Call_extract_area t1 l t wd ht, Call_conv t2 sharpen]"
    using cs cs2 cs3 by simp
  from ResizeAsync_Inr_run [OF assms(2)]
  have en: "\<exists>ecs b' w''. encode be ?b out w' = (ecs, b', w'') \<and>
         resize be raw a w = (ResizeAsyncAfter b', cs @ ecs, w'')"
    by (auto simp: resize_def)
  from d ol s_def r_def s1 s2 ca wd ex sh cs' iff o en show ?thesis by blast
qed

text \<open>
  A 10 by 10 source cropped to 5 by 5 on the reference library: the resampled image is
  5 by 5, and so is the output.
\<close>

theorem crop_output_size_witness:
  "arg_canvas (request ''in.png'' ''__png'' 5 5 ''c'') = ''c'' \<and>
   transform (ref_vips 10 10) (Resize raw0 (request ''in.png'' ''__png'' 5 5 ''c'')) [] =
     ([Call_image_new_mode ''in.png'' ''p'', Call_pngload ''in.png'',
       Call_open_local_array (10, 10), Call_shrink (10, 10) 2 2,
       Call_affinei_all (5, 5) bilinear_static 1 0 0 1 0 0,
       Call_extract_area (5, 5) 0 0 5 5, Call_conv (5, 5) sharpen],
      Inr ((5, 5), [])) \<and>
   keeps_geometry (ref_vips 10 10) \<and>
   (\<exists>cs0 img w0 w1 s r t0 w2 t1 w3 l t wd ht t2 w4.
      decode (ref_vips 10 10) (Resize raw0 (request ''in.png'' ''__png'' 5 5 ''c'')) [] =
        (cs0, Inr (img, w0)) \<and>
      im_open_local_array (ref_vips 10 10) img 4 ''temp'' ''p'' w0 = (0, w1) \<and>
      s = shrink (plan (fst img) (snd img) 5 5 True) \<and>
      r = residual (plan (fst img) (snd img) 5 5 True) \<and>
      im_shrink (ref_vips 10 10) img s s w1 = (Some t0, w2) \<and>
      im_affinei_all (ref_vips 10 10) t0 bilinear_static r 0 0 r 0 0 w2 = (Some t1, w3) \<and>
      crop_area (fst t1) (snd t1) 5 5 = (l, t, wd, ht) \<and>
      wd = min (fst t1) 5 \<and> ht = min (snd t1) 5 \<and>
      im_extract_area (ref_vips 10 10) t1 l t wd ht w3 = (Some t2, w4) \<and>
      im_conv (ref_vips 10 10) t2 sharpen w4 = (Some (5, 5), []) \<and>
      [Call_image_new_mode ''in.png'' ''p'', Call_pngload ''in.png'',
       Call_open_local_array (10, 10), Call_shrink (10, 10) 2 2,
       Call_affinei_all (5, 5) bilinear_static 1 0 0 1 0 0,
       Call_extract_area (5, 5) 0 0 5 5, Call_conv (5, 5) sharpen] =
        cs0 @ [Call_open_local_array img, Call_shrink img s s,
               Call_affinei_all t0 bilinear_static r 0 0 r 0 0,
               Call_extract_area t1 l t wd ht, Call_conv t2 sharpen] \<and>
      (wd = 5 \<and> ht = 5 \<longleftrightarrow> 5 \<le> fst t1 \<and> 5 \<le> snd t1) \<and>
      5 = wd \<and> 5 = ht \<and>
      (\<exists>ecs b' w''.
         encode (ref_vips 10 10) (Resize raw0 (request ''in.png'' ''__png'' 5 5 ''c''))
           (5, 5) [] = (ecs, b', w'') \<and>
         resize (ref_vips 10 10) raw0 (request ''in.png'' ''__png'' 5 5 ''c'') [] =
           (ResizeAsyncAfter b',
            [Call_image_new_mode ''in.png'' ''p'', Call_pngload ''in.png'',
             Call_open_local_array (10, 10), Call_shrink (10, 10) 2 2,
             Call_affinei_all (5, 5) bilinear_static 1 0 0 1 0 0,
             Call_extract_area (5, 5) 0 0 5 5, Call_conv (5, 5) sharpen] @ ecs, w'')))"
proof -
  have c: "arg_canvas (request ''in.png'' ''__png'' 5 5 ''c'') = ''c''"
    by (simp add: request_fields)
  note k = ref_keeps_geometry [of 10 10]
  note t = transform_10_5 [of "''__png''"]
  note i = crop_output_size [OF c t,
      unfolded request_fields ref_vips_simps(1,2) fst_conv snd_conv k [THEN eqTrueI] simp_thms]
  from c t k i show ?thesis by blast
qed


text \<open>
  The claim as stated fails where the shrink rounds down: an 11 by 11 source and a 3 by 3
  target give factor 11/3, shrink 3 and residual about 0.818; the shrunk image is 3 by 3,
  the resampled one 2 by 2 (the extent 2.45 rounded to the nearest integer), and that is
  the size extracted and encoded. The extraction takes the smaller of the two widths
  because the resampled image can be the narrower one.
\<close>

theorem crop_output_counterexample:
  "(1::int) \<le> 3 \<and> (3::int) \<le> 11 \<and>
   resize (ref_vips 11 11) raw0 (request ''in.jpg'' ''__jpeg'' 3 3 ''c'') [] =
     ([(None, Some [255, 216, 255])],
      [Call_image_new_mode ''in.jpg'' ''p'', Call_jpegload ''in.jpg'',
       Call_open_local_array (11, 11), Call_shrink (11, 11) 3 3,
       Call_affinei_all (3, 3) bilinear_static (7369526662969903 / 9007199254740992) 0 0
         (7369526662969903 / 9007199254740992) 0 0,
       Call_extract_area (2, 2) 0 0 2 2, Call_conv (2, 2) sharpen,
       Call_jpegsave_buffer (2, 2) jpeg_options], []) \<and>
   ((2::int), (2::int)) \<noteq> (3, 3)"
  by (simp add: run_11_3)

section \<open>Targets that are not positive\<close>

text \<open>
  Claim C5, amended. Target widths and heights below 1 are treated as 1 in the
  computation of the scale factors only: the plan for a target is the plan for the target
  clamped to at least 1, the divisors are positive, and the shrink the worker asks for is
  the one of the clamped target. The crop and the embed stage use the target of the request
  as it is: the extraction asks for the smaller of the image size and the unclamped target,
  and the embedding for a canvas of the unclamped target.
\<close>

theorem clamp_in_factors_only:
  "plan xs ys c r cr = plan xs ys (max c 1) (max r 1) cr \<and> 0 < max c 1 \<and> 0 < max r 1 \<and>
   (Call_shrink img s s' \<in> set (fst (snd (resize be raw a w))) \<longrightarrow>
      s = shrink (plan (Xsize be img) (Ysize be img) (max (arg_cols a) 1) (max (arg_rows a) 1)
            (crop (Resize raw a))) \<and> s' = s) \<and>
   (Call_extract_area img l t wd ht \<in> set (fst (snd (resize be raw a w))) \<longrightarrow>
      wd = min (Xsize be img) (arg_cols a) \<and> ht = min (Ysize be img) (arg_rows a)) \<and>
   (Call_embed img e l t wd ht \<in> set (fst (snd (resize be raw a w))) \<longrightarrow>
      wd = arg_cols a \<and> ht = arg_rows a)"
proof -
  have 1: "plan xs ys c r cr = plan xs ys (max c 1) (max r 1) cr \<and> 0 < max c 1 \<and> 0 < max r 1"
    by (simp add: plan_def less_max_iff_disj)
  have 2: "s = shrink (plan (Xsize be img) (Ysize be img) (max (arg_cols a) 1)
            (max (arg_rows a) 1) (crop (Resize raw a))) \<and> s' = s"
    if "Call_shrink img s s' \<in> set (fst (snd (resize be raw a w)))"
    using resize_shrink [OF that] plan_clamped [of _ _ "arg_cols a" "arg_rows a"] by simp
  have 3: "wd = min (Xsize be img) (arg_cols a) \<and> ht = min (Ysize be img) (arg_rows a)"
    if "Call_extract_area img l t wd ht \<in> set (fst (snd (resize be raw a w)))"
    using resize_extract [OF that] by (simp add: crop_area_def Let_def)
  have 4: "wd = arg_cols a \<and> ht = arg_rows a"
    if "Call_embed img e l t wd ht \<in> set (fst (snd (resize be raw a w)))"
    using resize_embed [OF that] by (simp add: embed_area_def Let_def)
  from 1 2 3 4 show ?thesis by blast
qed

theorem clamp_in_factors_only_witness:
  "plan 10 10 0 0 False = plan 10 10 1 1 False \<and>
   Call_shrink (10, 10) 10 10 \<in>
     set (fst (snd (resize (ref_vips 10 10) raw0 (request ''in.jpg'' ''out.png'' 0 0 ''w'') []))) \<and>
   10 = shrink (plan 10 10 1 1 False) \<and>
   Call_embed (1, 1) 4 0 0 0 0 \<in>
     set (fst (snd (resize (ref_vips 10 10) raw0 (request ''in.jpg'' ''out.png'' 0 0 ''w'') []))) \<and>
   Call_extract_area (1, 1) 1 1 0 0 \<in>
     set (fst (snd (resize (ref_vips 10 10) raw0 (request ''in.jpg'' ''out.png'' 0 0 ''c'') []))) \<and>
   (0::int) = min 1 0"
  using clamp_in_factors_only [where xs = 10 and ys = 10 and c = 0 and r = 0 and cr = False
      and img = "(10, 10)" and s = 10 and s' = 10 and be = "ref_vips 10 10" and raw = raw0
      and a = "request ''in.jpg'' ''out.png'' 0 0 ''w''" and w = "[]"
      and l = 0 and t = 0 and wd = 0 and ht = 0 and e = 4]
    clamp_in_factors_only [where xs = 10 and ys = 10 and c = 0 and r = 0 and cr = False
      and img = "(1, 1)" and s = 10 and s' = 10 and be = "ref_vips 10 10" and raw = raw0
      and a = "request ''in.jpg'' ''out.png'' 0 0 ''w''" and w = "[]"
      and l = 0 and t = 0 and wd = 0 and ht = 0 and e = 4]
    clamp_in_factors_only [where xs = 10 and ys = 10 and c = 0 and r = 0 and cr = False
      and img = "(1, 1)" and s = 10 and s' = 10 and be = "ref_vips 10 10" and raw = raw0
      and a = "request ''in.jpg'' ''out.png'' 0 0 ''c''" and w = "[]"
      and l = 1 and t = 1 and wd = 0 and ht = 0 and e = 4]
  by (simp add: run_10_0_embed run_10_0_crop Resize_request ref_vips_simps request_fields
      plan_10_0 plan_10_1)

text \<open>
  With a target of 0 by 0 and the embed policy, the canvas handed to \<^verbatim>\<open>im_embed\<close> is 0 by 0.
\<close>

theorem clamp_counterexample:
  "fst (snd (resize (ref_vips 10 10) raw0 (request ''in.jpg'' ''out.png'' 0 0 ''w'') [])) =
     [Call_image_new_mode ''in.jpg'' ''p'', Call_jpegload ''in.jpg'',
      Call_open_local_array (10, 10), Call_shrink (10, 10) 10 10,
      Call_affinei_all (1, 1) bilinear_static 1 0 0 1 0 0,
      Call_embed (1, 1) 4 0 0 0 0] \<and>
   \<not> (0::int) < 0"
  by (simp add: run_10_0_embed)

section \<open>Unsupported file types\<close>

text \<open>
  Claim C6, amended. A source path that ends in none of \<^verbatim>\<open>.jpg\<close>, \<^verbatim>\<open>.jpeg\<close>, \<^verbatim>\<open>.png\<close>
  completes with the error \<^verbatim>\<open>Unsupported input file type\<close> and no buffer, after the single
  library call that creates the image descriptor. A destination that is neither a buffer
  sentinel nor a path ending in one of the three suffixes completes with the error
  \<^verbatim>\<open>Unsupported output file type\<close> and no buffer, without any encoder call, when the source
  has been decoded and every transform stage has succeeded: the destination is examined
  only at line 134, after the sharpen stage.
\<close>

theorem unsupported_types:
  "(\<not> EndsWith (arg_src a) ''.jpg'' \<and> \<not> EndsWith (arg_src a) ''.jpeg'' \<and>
    \<not> EndsWith (arg_src a) ''.png'' \<longrightarrow>
      resize be raw a w =
        ([(Some ''Unsupported input file type'', None)],
         [Call_image_new_mode (arg_src a) ''p''],
         snd (vips_image_new_mode be (arg_src a) ''p'' w)))
   \<and> (arg_dst a \<noteq> ''__jpeg'' \<and> arg_dst a \<noteq> ''__png'' \<and> \<not> EndsWith (arg_dst a) ''.jpg'' \<and>
      \<not> EndsWith (arg_dst a) ''.jpeg'' \<and> \<not> EndsWith (arg_dst a) ''.png'' \<and>
      transform be (Resize raw a) w = (cs, Inr (img, w')) \<longrightarrow>
        resize be raw a w = ([(Some ''Unsupported output file type'', None)], cs, w') \<and>
        (\<forall>c\<in>set cs. \<not> is_encode c))"
  using resize_unsupported_input [of a be raw w]
    resize_unsupported_output [of a be raw w cs img w']
    transform_no_encode [of _ be "Resize raw a" w]
  by auto

theorem unsupported_types_witness:
  "resize (ref_vips 10 10) raw0 (request ''in.gif'' ''__jpeg'' 5 5 ''c'') [] =
     ([(Some ''Unsupported input file type'', None)], [Call_image_new_mode ''in.gif'' ''p''], [])
   \<and> resize (ref_vips 10 10) raw0 (request ''in.png'' ''out.bmp'' 5 5 ''c'') [] =
     ([(Some ''Unsupported output file type'', None)],
      [Call_image_new_mode ''in.png'' ''p'', Call_pngload ''in.png'',
       Call_open_local_array (10, 10), Call_shrink (10, 10) 2 2,
       Call_affinei_all (5, 5) bilinear_static 1 0 0 1 0 0,
       Call_extract_area (5, 5) 0 0 5 5, Call_conv (5, 5) sharpen], [])"
  using unsupported_types [where a = "request ''in.gif'' ''__jpeg'' 5 5 ''c''"
      and be = "ref_vips 10 10" and raw = raw0 and w = "[]"]
    unsupported_types [where a = "request ''in.png'' ''out.bmp'' 5 5 ''c''"
      and be = "ref_vips 10 10" and raw = raw0 and w = "[]" and img = "(5, 5)" and w' = "[]"
      and cs = "[Call_image_new_mode ''in.png'' ''p'', Call_pngload ''in.png'',
       Call_open_local_array (10, 10), Call_shrink (10, 10) 2 2,
       Call_affinei_all (5, 5) bilinear_static 1 0 0 1 0 0,
       Call_extract_area (5, 5) 0 0 5 5, Call_conv (5, 5) sharpen]"]
    transform_10_5 [of "''out.bmp''"]
  by (simp add: request_def EndsWith_def ref_vips_simps)

text \<open>
  A request with an unsupported source and an unsupported destination: the error is the one
  of the source, and the destination is never examined.
\<close>

theorem unsupported_output_counterexample:
  "''out.bmp'' \<noteq> ''__jpeg'' \<and> ''out.bmp'' \<noteq> ''__png'' \<and> \<not> EndsWith ''out.bmp'' ''.jpg'' \<and>
   \<not> EndsWith ''out.bmp'' ''.jpeg'' \<and> \<not> EndsWith ''out.bmp'' ''.png'' \<and>
   fst (resize (ref_vips 10 10) raw0 (request ''in.gif'' ''out.bmp'' 5 5 ''c'') []) =
     [(Some ''Unsupported input file type'', None)] \<and>
   \<not> contains ''Unsupported input file type'' ''Unsupported output file type''"
  by (simp add: resize_def ResizeAsync_def stage_defs Resize_request ref_vips_simps
      ResizeAsyncAfter_def)

section \<open>The sharpen stage\<close>

text \<open>
  Claim C7. A resize is successful when no stage fails; the worker then reaches line 134
  and calls an encoder. In every run that calls an encoder, whatever the policy, the sizes
  and the library, the library calls end with three calls: the crop or embed call \<open>c\<close>,
  \<^verbatim>\<open>im_conv\<close> with the mask \<open>sharpen\<close> (3 by 3, centre 32, the eight neighbours -1, scale
  24) on the image \<open>t2\<close> that \<open>c\<close> has returned, and the encoder on the image \<open>t3\<close> that
  \<^verbatim>\<open>im_conv\<close> has returned. So the convolution is the last transform, it works on the
  result of the transforms before it, and its result is what is encoded and what the
  callback reports. No encoder is called earlier. A request that delivers a buffer has
  called an encoder (lemma \<open>buffer_encoded\<close>), and so has, with a library that reports its
  errors, every request whose callback receives a null error (lemma \<open>null_error_encoded\<close>).
\<close>

theorem sharpen_final:
  assumes "resize be raw a w = (cb, cs, w')" and "\<exists>c\<in>set cs. is_encode c"
  shows "\<exists>pre t1 w1 c t2 w2 t3 w3 enc b'.
           cs = pre @ [c, Call_conv t2 sharpen, enc] \<and>
           (\<forall>x\<in>set pre. \<not> is_encode x) \<and>
           ((\<exists>l t wd ht. c = Call_extract_area t1 l t wd ht \<and>
               im_extract_area be t1 l t wd ht w1 = (Some t2, w2)) \<or>
            (\<exists>e l t wd ht. c = Call_embed t1 e l t wd ht \<and>
               im_embed be t1 e l t wd ht w1 = (Some t2, w2))) \<and>
           im_conv be t2 sharpen w2 = (Some t3, w3) \<and>
           encode be (Resize raw a) t3 w3 = ([enc], b', w') \<and>
           enc \<in> {Call_jpegsave_buffer t3 jpeg_options, Call_pngsave_buffer t3 png_options,
                   Call_foreign_save t3 (arg_dst a) jpeg_options,
                   Call_foreign_save t3 (arg_dst a) png_options} \<and>
           cb = ResizeAsyncAfter b' \<and>
           xsize sharpen = 3 \<and> ysize sharpen = 3 \<and>
           coeff sharpen = [- 1, - 1, - 1, - 1, 32, - 1, - 1, - 1, - 1] \<and>
           scale sharpen = 24"
proof -
  let ?b = "Resize raw a"
  obtain cs' b' w'' where run0: "ResizeAsync be ?b w = (cs', b', w'')"
    by (cases "ResizeAsync be ?b w")
  with assms(1) have run: "ResizeAsync be ?b w = (cs, b', w')"
    and cb: "cb = ResizeAsyncAfter b'"
    by (simp_all add: resize_def)
  obtain cs1 res where t: "transform be ?b w = (cs1, res)"
    by (cases "transform be ?b w")
  have n1: "\<forall>x\<in>set cs1. \<not> is_encode x"
    using transform_no_encode [of _ be ?b w] t by simp
  show ?thesis
  proof (cases res)
    case (Inl ret)
    from transform_Inl_calls [OF t [unfolded Inl]] run have "cs = cs1" by simp
    with assms(2) n1 show ?thesis by blast
  next
    case (Inr y)
    obtain t3 w3 where y: "y = (t3, w3)" by (cases y)
    note tr = t [unfolded Inr y]
    from transform_Inr_run [OF tr run] obtain ecs where
      enc: "encode be ?b t3 w3 = (ecs, b', w')" and cs: "cs = cs1 @ ecs" by blast
    from cs assms(2) n1 have "ecs \<noteq> []" by auto
    with encode_calls_shape [of be ?b t3 w3] enc obtain e where e: "ecs = [e]" by auto
    from transform_Inr_stages [OF tr] obtain cs0 img cs2 t1 w1 cs3 t2 w2 where
      cv: "canvas be ?b t1 w1 = (cs3, Inr (t2, w2))"
      and sh: "im_conv be t2 sharpen w2 = (Some t3, w3)"
      and cs1: "cs1 = cs0 @ Call_open_local_array img # cs2 @ cs3 @ [Call_conv t2 sharpen]"
      by blast
    from canvas_Inr [OF cv] obtain c where c3: "cs3 = [c]"
      and c: "(\<exists>l t wd ht. c = Call_extract_area t1 l t wd ht \<and>
               im_extract_area be t1 l t wd ht w1 = (Some t2, w2)) \<or>
            (\<exists>e l t wd ht. c = Call_embed t1 e l t wd ht \<and>
               im_embed be t1 e l t wd ht w1 = (Some t2, w2))"
      by blast
    define pre where "pre = cs0 @ Call_open_local_array img # cs2"
    have shape: "cs = pre @ [c, Call_conv t2 sharpen, e]"
      using cs cs1 c3 e by (simp add: pre_def)
    have np: "\<forall>x\<in>set pre. \<not> is_encode x"
      using n1 cs1 by (auto simp: pre_def)
    have en: "encode be ?b t3 w3 = ([e], b', w')" using enc e by simp
    from encode_one [OF en]
    have e_in: "e \<in> {Call_jpegsave_buffer t3 jpeg_options, Call_pngsave_buffer t3 png_options,
                   Call_foreign_save t3 (arg_dst a) jpeg_options,
                   Call_foreign_save t3 (arg_dst a) png_options}"
      by (simp add: Resize_fields)
    have m: "xsize sharpen = 3 \<and> ysize sharpen = 3 \<and>
           coeff sharpen = [- 1, - 1, - 1, - 1, 32, - 1, - 1, - 1, - 1] \<and>
           scale sharpen = 24"
      by (simp add: sharpen_def im_create_imaskv_def)
    from shape np c sh en e_in cb m show ?thesis by blast
  qed
qed

text \<open>A 10 by 10 PNG cropped to 5 by 5 and encoded into a buffer, on the reference library.\<close>

theorem sharpen_final_witness:
  "resize (ref_vips 10 10) raw0 (request ''in.png'' ''__png'' 5 5 ''c'') [] =
     ([(None, Some [137, 80, 78, 71])],
      [Call_image_new_mode ''in.png'' ''p'', Call_pngload ''in.png'',
       Call_open_local_array (10, 10), Call_shrink (10, 10) 2 2,
       Call_affinei_all (5, 5) bilinear_static 1 0 0 1 0 0,
       Call_extract_area (5, 5) 0 0 5 5, Call_conv (5, 5) sharpen,
       Call_pngsave_buffer (5, 5) png_options], []) \<and>
   is_encode (Call_pngsave_buffer (5 :: int, 5 :: int) png_options) \<and>
   (\<exists>pre t1 w1 c t2 w2 t3 w3 enc b'.
      [Call_image_new_mode ''in.png'' ''p'', Call_pngload ''in.png'',
       Call_open_local_array (10, 10), Call_shrink (10, 10) 2 2,
       Call_affinei_all (5, 5) bilinear_static 1 0 0 1 0 0,
       Call_extract_area (5, 5) 0 0 5 5, Call_conv (5, 5) sharpen,
       Call_pngsave_buffer (5, 5) png_options] = pre @ [c, Call_conv t2 sharpen, enc] \<and>
      (\<forall>x\<in>set pre. \<not> is_encode x) \<and>
      ((\<exists>l t wd ht. c = Call_extract_area t1 l t wd ht \<and>
          im_extract_area (ref_vips 10 10) t1 l t wd ht w1 = (Some t2, w2)) \<or>
       (\<exists>e l t wd ht. c = Call_embed t1 e l t wd ht \<and>
          im_embed (ref_vips 10 10) t1 e l t wd ht w1 = (Some t2, w2))) \<and>
      im_conv (ref_vips 10 10) t2 sharpen w2 = (Some t3, w3) \<and>
      encode (ref_vips 10 10) (Resize raw0 (request ''in.png'' ''__png'' 5 5 ''c'')) t3 w3 =
        ([enc], b', []) \<and>
      enc \<in> {Call_jpegsave_buffer t3 jpeg_options, Call_pngsave_buffer t3 png_options,
              Call_foreign_save t3 ''__png'' jpeg_options,
              Call_foreign_save t3 ''__png'' png_options} \<and>
      [(None, Some [137, 80, 78, 71])] = ResizeAsyncAfter b' \<and>
      xsize sharpen = 3 \<and> ysize sharpen = 3 \<and>
      coeff sharpen = [- 1, - 1, - 1, - 1, 32, - 1, - 1, - 1, - 1] \<and> scale sharpen = 24)"
proof -
  let ?cs = "[Call_image_new_mode ''in.png'' ''p'', Call_pngload ''in.png'',
       Call_open_local_array (10 :: int, 10 :: int), Call_shrink (10, 10) 2 2,
       Call_affinei_all (5, 5) bilinear_static 1 0 0 1 0 0,
       Call_extract_area (5, 5) 0 0 5 5, Call_conv (5, 5) sharpen,
       Call_pngsave_buffer (5, 5) png_options]"
  have e: "is_encode (Call_pngsave_buffer (5 :: int, 5 :: int) png_options)" by simp
  then have h: "\<exists>c\<in>set ?cs. is_encode c" by simp
  note i = sharpen_final [OF run_10_5_png h, unfolded request_fields]
  from run_10_5_png e i show ?thesis by blast
qed

section \<open>A canvas argument that is none of the three\<close>

text \<open>
  Claim C8. When the canvas argument is none of \<^verbatim>\<open>c\<close>, \<^verbatim>\<open>w\<close>, \<^verbatim>\<open>b\<close>, \<^verbatim>\<open>Resize\<close> leaves
  \<^verbatim>\<open>crop\<close> and \<^verbatim>\<open>embed\<close> as the allocated memory holds them and sets no error; the branch
  the canvas stage takes and the background it embeds on are those of that memory.
\<close>

theorem canvas_unset:
  assumes "arg_canvas a \<notin> {''c'', ''w'', ''b''}"
  shows "crop (Resize raw a) = crop raw \<and> embed (Resize raw a) = embed raw \<and>
         err (Resize raw a) = [] \<and>
         fst (canvas be (Resize raw a) img w) =
           (if crop raw
            then (case crop_area (Xsize be img) (Ysize be img) (arg_cols a) (arg_rows a) of
                    (l, t, wd, ht) \<Rightarrow> [Call_extract_area img l t wd ht])
            else (case embed_area (Xsize be img) (Ysize be img) (arg_cols a) (arg_rows a) of
                    (l, t, wd, ht) \<Rightarrow> [Call_embed img (embed raw) l t wd ht]))"
proof -
  from assms have "crop (Resize raw a) = crop raw \<and> embed (Resize raw a) = embed raw \<and>
         err (Resize raw a) = []"
    by (simp add: Resize_def ResizeBaton_new_def Let_def)
  then show ?thesis by (simp add: canvas_calls_eq Resize_fields)
qed

theorem canvas_unset_witness:
  "''x'' \<notin> {''c'', ''w'', ''b''} \<and>
   crop (Resize raw0 (request ''in.jpg'' ''out.jpg'' 5 5 ''x'')) = True \<and>
   embed (Resize raw0 (request ''in.jpg'' ''out.jpg'' 5 5 ''x'')) = 3 \<and>
   err (Resize raw0 (request ''in.jpg'' ''out.jpg'' 5 5 ''x'')) = [] \<and>
   fst (canvas (ref_vips 10 10) (Resize raw0 (request ''in.jpg'' ''out.jpg'' 5 5 ''x''))
          (5, 5) []) = [Call_extract_area (5, 5) 0 0 5 5] \<and>
   fst (canvas (ref_vips 10 10)
          (Resize (raw0\<lparr>crop := False\<rparr>) (request ''in.jpg'' ''out.jpg'' 5 5 ''x''))
          (5, 5) []) = [Call_embed (5, 5) 3 0 0 5 5]"
  using canvas_unset [of "request ''in.jpg'' ''out.jpg'' 5 5 ''x''" raw0 "ref_vips 10 10"
      "(5, 5)" "[]"]
    canvas_unset [of "request ''in.jpg'' ''out.jpg'' 5 5 ''x''" "raw0\<lparr>crop := False\<rparr>"
      "ref_vips 10 10" "(5, 5)" "[]"]
  by (simp add: request_fields raw0_def ref_vips_simps crop_area_def embed_area_def
      signed_divide_int_def)

section \<open>Upper-case suffixes\<close>

text \<open>
  Claim C9, amended. The suffix test is an exact comparison of bytes. A source ending in
  an upper-case spelling (\<^verbatim>\<open>.JPG\<close>, \<^verbatim>\<open>.JPEG\<close>, \<^verbatim>\<open>.Jpeg\<close>, \<^verbatim>\<open>.PNG\<close>) completes with
  \<^verbatim>\<open>Unsupported input file type\<close>. A destination ending in one of them completes with
  \<^verbatim>\<open>Unsupported output file type\<close> when the source has been decoded and every transform
  stage has succeeded. The lower-case spellings select the JPEG or PNG loader for a source
  and the JPEG or PNG file encoder for a destination.
\<close>

theorem suffix_case_sensitive:
  assumes "u \<in> {''.JPG'', ''.JPEG'', ''.Jpeg'', ''.PNG''}"
  shows "(EndsWith s e \<longleftrightarrow> (\<exists>p. s = p @ e)) \<and>
    (arg_src a = base @ u \<longrightarrow>
       resize be raw a w =
         ([(Some ''Unsupported input file type'', None)],
          [Call_image_new_mode (base @ u) ''p''],
          snd (vips_image_new_mode be (base @ u) ''p'' w))) \<and>
    (arg_dst a = base @ u \<and> transform be (Resize raw a) w = (cs, Inr (img, w')) \<longrightarrow>
       resize be raw a w = ([(Some ''Unsupported output file type'', None)], cs, w')) \<and>
    (arg_src a = base @ ''.jpg'' \<or> arg_src a = base @ ''.jpeg'' \<longrightarrow>
       fst (decode be (Resize raw a) w) =
         [Call_image_new_mode (arg_src a) ''p'', Call_jpegload (arg_src a)]) \<and>
    (arg_src a = base @ ''.png'' \<longrightarrow>
       fst (decode be (Resize raw a) w) =
         [Call_image_new_mode (arg_src a) ''p'', Call_pngload (arg_src a)]) \<and>
    (arg_dst a = base @ ''.jpg'' \<or> arg_dst a = base @ ''.jpeg'' \<longrightarrow>
       fst (encode be (Resize raw a) img w) =
         [Call_foreign_save img (arg_dst a) jpeg_options]) \<and>
    (arg_dst a = base @ ''.png'' \<longrightarrow>
       fst (encode be (Resize raw a) img w) =
         [Call_foreign_save img (arg_dst a) png_options])"
proof -
  note up = upper_not_EndsWith [OF assms, of base] upper_not_sentinel [OF assms, of base]
  have 1: "EndsWith s e \<longleftrightarrow> (\<exists>p. s = p @ e)" by (rule EndsWith_iff)
  have 2: "resize be raw a w =
         ([(Some ''Unsupported input file type'', None)],
          [Call_image_new_mode (base @ u) ''p''],
          snd (vips_image_new_mode be (base @ u) ''p'' w))"
    if "arg_src a = base @ u"
    using resize_unsupported_input [of a be raw w] up that by simp
  have 3: "resize be raw a w = ([(Some ''Unsupported output file type'', None)], cs, w')"
    if "arg_dst a = base @ u \<and> transform be (Resize raw a) w = (cs, Inr (img, w'))"
    using resize_unsupported_output [of a be raw w cs img w'] up that by simp
  have 4: "fst (decode be (Resize raw a) w) =
         [Call_image_new_mode (arg_src a) ''p'', Call_jpegload (arg_src a)]"
    if "arg_src a = base @ ''.jpg'' \<or> arg_src a = base @ ''.jpeg''"
    using decode_jpeg_calls [of "Resize raw a" be w] lower_EndsWith [of base] that
    by (auto simp: Resize_fields)
  have 5: "fst (decode be (Resize raw a) w) =
         [Call_image_new_mode (arg_src a) ''p'', Call_pngload (arg_src a)]"
    if "arg_src a = base @ ''.png''"
    using decode_png_calls [of "Resize raw a" be w] lower_EndsWith [of base]
      png_not_jpeg [of base] that
    by (simp add: Resize_fields)
  have 6: "fst (encode be (Resize raw a) img w) =
         [Call_foreign_save img (arg_dst a) jpeg_options]"
    if "arg_dst a = base @ ''.jpg'' \<or> arg_dst a = base @ ''.jpeg''"
    using encode_jpeg_calls [of "Resize raw a" be img w] lower_EndsWith [of base]
      lower_not_sentinel [of "''.jpg''" base] lower_not_sentinel [of "''.jpeg''" base] that
    by (auto simp: Resize_fields)
  have 7: "fst (encode be (Resize raw a) img w) =
         [Call_foreign_save img (arg_dst a) png_options]"
    if "arg_dst a = base @ ''.png''"
    using encode_png_calls [of "Resize raw a" be img w] lower_EndsWith [of base]
      lower_not_sentinel [of "''.png''" base] png_not_jpeg [of base] that
    by (simp add: Resize_fields)
  from 1 2 3 4 5 6 7 show ?thesis by blast
qed

theorem suffix_case_sensitive_witness:
  "''.JPG'' \<in> {''.JPG'', ''.JPEG'', ''.Jpeg'', ''.PNG''} \<and>
   resize (ref_vips 10 10) raw0 (request ''in.JPG'' ''out.jpg'' 5 5 ''c'') [] =
     ([(Some ''Unsupported input file type'', None)], [Call_image_new_mode ''in.JPG'' ''p''],
      []) \<and>
   resize (ref_vips 10 10) raw0 (request ''in.png'' ''out.JPG'' 5 5 ''c'') [] =
     ([(Some ''Unsupported output file type'', None)],
      [Call_image_new_mode ''in.png'' ''p'', Call_pngload ''in.png'',
       Call_open_local_array (10, 10), Call_shrink (10, 10) 2 2,
       Call_affinei_all (5, 5) bilinear_static 1 0 0 1 0 0,
       Call_extract_area (5, 5) 0 0 5 5, Call_conv (5, 5) sharpen], []) \<and>
   fst (decode (ref_vips 10 10) (Resize raw0 (request ''in.jpg'' ''out.png'' 5 5 ''c'')) []) =
     [Call_image_new_mode ''in.jpg'' ''p'', Call_jpegload ''in.jpg''] \<and>
   fst (decode (ref_vips 10 10) (Resize raw0 (request ''in.png'' ''out.jpg'' 5 5 ''c'')) []) =
     [Call_image_new_mode ''in.png'' ''p'', Call_pngload ''in.png''] \<and>
   fst (encode (ref_vips 10 10) (Resize raw0 (request ''in.png'' ''out.jpg'' 5 5 ''c''))
          (5, 5) []) =
     [Call_foreign_save (5, 5) ''out.jpg'' jpeg_options] \<and>
   fst (encode (ref_vips 10 10) (Resize raw0 (request ''in.jpg'' ''out.png'' 5 5 ''c''))
          (5, 5) []) =
     [Call_foreign_save (5, 5) ''out.png'' png_options]"
proof -
  let ?cs = "[Call_image_new_mode ''in.png'' ''p'', Call_pngload ''in.png'',
       Call_open_local_array (10, 10), Call_shrink (10, 10) 2 2,
       Call_affinei_all (5, 5) bilinear_static 1 0 0 1 0 0,
       Call_extract_area (5, 5) 0 0 5 5, Call_conv (5, 5) sharpen]"
  have u: "''.JPG'' \<in> {''.JPG'', ''.JPEG'', ''.Jpeg'', ''.PNG''}" by simp
  note t = suffix_case_sensitive [OF u, where be = "ref_vips 10 10" and raw = raw0
      and w = "[]" and img = "(5, 5)" and w' = "[]" and cs = ?cs and s = "[]" and e = "[]"]
  from t [where a = "request ''in.JPG'' ''out.jpg'' 5 5 ''c''" and base = "''in''"]
  have 1: "resize (ref_vips 10 10) raw0 (request ''in.JPG'' ''out.jpg'' 5 5 ''c'') [] =
     ([(Some ''Unsupported input file type'', None)], [Call_image_new_mode ''in.JPG'' ''p''],
      [])"
    by (simp add: request_fields ref_vips_simps)
  from t [where a = "request ''in.png'' ''out.JPG'' 5 5 ''c''" and base = "''out''"]
    transform_10_5 [of "''out.JPG''"]
  have 2: "resize (ref_vips 10 10) raw0 (request ''in.png'' ''out.JPG'' 5 5 ''c'') [] =
     ([(Some ''Unsupported output file type'', None)], ?cs, [])"
    by (simp add: request_fields)
  from t [where a = "request ''in.jpg'' ''out.png'' 5 5 ''c''" and base = "''in''"]
  have 3: "fst (decode (ref_vips 10 10)
       (Resize raw0 (request ''in.jpg'' ''out.png'' 5 5 ''c'')) []) =
     [Call_image_new_mode ''in.jpg'' ''p'', Call_jpegload ''in.jpg'']"
    by (simp add: request_fields)
  from t [where a = "request ''in.png'' ''out.jpg'' 5 5 ''c''" and base = "''in''"]
  have 4: "fst (decode (ref_vips 10 10)
       (Resize raw0 (request ''in.png'' ''out.jpg'' 5 5 ''c'')) []) =
     [Call_image_new_mode ''in.png'' ''p'', Call_pngload ''in.png'']"
    by (simp add: request_fields)
  from t [where a = "request ''in.png'' ''out.jpg'' 5 5 ''c''" and base = "''out''"]
  have 5: "fst (encode (ref_vips 10 10) (Resize raw0 (request ''in.png'' ''out.jpg'' 5 5 ''c''))
          (5, 5) []) = [Call_foreign_save (5, 5) ''out.jpg'' jpeg_options]"
    by (simp add: request_fields)
  from t [where a = "request ''in.jpg'' ''out.png'' 5 5 ''c''" and base = "''out''"]
  have 6: "fst (encode (ref_vips 10 10) (Resize raw0 (request ''in.jpg'' ''out.png'' 5 5 ''c''))
          (5, 5) []) = [Call_foreign_save (5, 5) ''out.png'' png_options]"
    by (simp add: request_fields)
  from u 1 2 3 4 5 6 show ?thesis by blast
qed

text \<open>
  A request whose source and destination both end in \<^verbatim>\<open>.JPG\<close>: the destination is not
  rejected as an unsupported output, the worker returns at the source.
\<close>

theorem suffix_case_counterexample:
  "''out.JPG'' \<noteq> ''__jpeg'' \<and> ''out.JPG'' \<noteq> ''__png'' \<and>
   fst (resize (ref_vips 10 10) raw0 (request ''in.JPG'' ''out.JPG'' 5 5 ''c'') []) =
     [(Some ''Unsupported input file type'', None)] \<and>
   \<not> contains ''Unsupported input file type'' ''Unsupported output file type''"
  by (simp add: resize_def ResizeAsync_def stage_defs Resize_request ref_vips_simps
      ResizeAsyncAfter_def)

section \<open>The crop rectangle\<close>

text \<open>
  Claim C10. For a resampled image and a target of at least 1 by 1, the rectangle computed
  for the extraction (width the smaller of image and target width, left the half of the
  excess rounded up, the same vertically) has non-negative offsets and lies within the
  image. The two sums formed on the way lie between 1 and the image size, so they do not
  overflow.
\<close>

theorem crop_within:
  assumes "1 \<le> xs" "1 \<le> ys" "1 \<le> c" "1 \<le> r" "crop_area xs ys c r = (l, t, wd, ht)"
  shows "wd = min xs c \<and> ht = min ys r \<and> l = (xs - wd + 1) sdiv 2 \<and> t = (ys - ht + 1) sdiv 2 \<and>
         0 \<le> l \<and> 0 \<le> t \<and> l + wd \<le> xs \<and> t + ht \<le> ys \<and>
         1 \<le> xs - wd + 1 \<and> xs - wd + 1 \<le> xs \<and> 1 \<le> ys - ht + 1 \<and> ys - ht + 1 \<le> ys"
proof -
  from assms(5) have eq: "wd = min xs c" "ht = min ys r" "l = (xs - wd + 1) sdiv 2"
    "t = (ys - ht + 1) sdiv 2"
    by (auto simp: crop_area_def Let_def)
  have half: "(k + 1) sdiv 2 = (k + 1) div 2 \<and> 0 \<le> (k + 1) div 2 \<and> (k + 1) div 2 \<le> k"
    if "0 \<le> k" for k :: int
    using that by (simp add: signed_divide_int_def sgn_if)
  have d: "0 \<le> xs - wd" "0 \<le> ys - ht" using eq by simp_all
  have w: "1 \<le> wd" "1 \<le> ht" using eq assms(1-4) by simp_all
  from half [OF d(1)] half [OF d(2)] eq w show ?thesis
    by (simp add: algebra_simps)
qed

theorem crop_within_witness:
  "(1::int) \<le> 267 \<and> (1::int) \<le> 200 \<and> crop_area 267 200 200 200 = (34, 0, 200, 200) \<and>
   (0::int) \<le> 34 \<and> (34::int) + 200 \<le> 267 \<and> (0::int) + 200 \<le> 200"
  using crop_within [of 267 200 200 200 34 0 200 200]
  by (simp add: crop_area_def signed_divide_int_def)

end
